theory Spec2Isabelle
  imports Main
begin

section \<open>Values exchanged with the object-storage client\<close>

text \<open>
  The two drivers (\<^verbatim>\<open>src/Drivers/AliyunOSS.ts\<close> and the older
  \<^verbatim>\<open>src/Drivers/Aliyun.js\<close>) are thin layers over the \<^verbatim>\<open>ali-oss\<close> client.
  The client is not part of the sources; it is a parameter of every definition below.
  A Node \<^verbatim>\<open>Buffer\<close> is a sequence of bytes, and a HOL \<^typ>\<open>char\<close> is a byte.
\<close>

type_synonym buffer = "char list"

text \<open>A JavaScript value as far as option objects need it, and an object as a map of its
  own properties (an absent property is \<open>None\<close>, a property set to \<^verbatim>\<open>undefined\<close> is
  \<open>Some JUndefined\<close>).\<close>

datatype jsval = JUndefined | JNumber int | JString string | JBoolean bool

type_synonym js_object = "string \<rightharpoonup> jsval"

datatype readable = Readable "buffer list"

text \<open>\<^verbatim>\<open>content: Buffer | Readable | string\<close> of \<^verbatim>\<open>put\<close>.\<close>

datatype body = BufferBody buffer | StreamBody readable | PathBody string

text \<open>\<^verbatim>\<open>result.content\<close> of the client's \<^verbatim>\<open>get\<close>: the TypeScript driver casts it
  to \<^verbatim>\<open>Buffer\<close>, the older driver tests it with \<^verbatim>\<open>Buffer.isBuffer\<close>.\<close>

datatype content = Buffer buffer | NotBuffer string

text \<open>An error object thrown by the client: the drivers read its \<^verbatim>\<open>name\<close> and its
  \<^verbatim>\<open>status\<close> (absent on errors that carry no HTTP status).\<close>

record oss_error =
  err_name :: string
  err_status :: "int option"

text \<open>What the client's calls resolve to: an object with the HTTP response \<^verbatim>\<open>res\<close> and,
  for \<^verbatim>\<open>get\<close> and \<^verbatim>\<open>getStream\<close>, the content or the stream.\<close>

record ObjectResult =
  res_status :: int
  res_headers :: "string \<rightharpoonup> string"

record GetResult = ObjectResult +
  res_content :: content

record StreamResult = ObjectResult +
  res_stream :: readable

text \<open>\<^verbatim>\<open>AliyunOSSConfig\<close>, and the client options \<^verbatim>\<open>configParams\<close> built from it
  (\<^verbatim>\<open>{accessKeyId: config.key, accessKeySecret: config.secret, ...config}\<close>).\<close>

record AliyunOSSConfig =
  key :: string
  secret :: string
  bucket :: string
  endpoint :: "string option"
  region :: "string option"
  internal :: "bool option"
  secure :: "bool option"

record Options = AliyunOSSConfig +
  accessKeyId :: string
  accessKeySecret :: string

text \<open>
  The client, over a backend state \<open>'s\<close> that only the client reads and writes. Each
  asynchronous call either rejects with an error object or resolves to a result, and
  leaves a new backend state. \<^verbatim>\<open>generateObjectUrl\<close> is synchronous: it returns a string
  computed from the client's options and the name.
\<close>

record 's OSS =
  options :: Options
  head_impl :: "string \<Rightarrow> js_object option \<Rightarrow> 's \<Rightarrow> (oss_error + ObjectResult) \<times> 's"
  get_impl :: "string \<Rightarrow> 's \<Rightarrow> (oss_error + GetResult) \<times> 's"
  put_impl :: "string \<Rightarrow> body \<Rightarrow> js_object option \<Rightarrow> 's \<Rightarrow> (oss_error + ObjectResult) \<times> 's"
  putStream_impl :: "string \<Rightarrow> readable \<Rightarrow> js_object \<Rightarrow> 's \<Rightarrow> (oss_error + ObjectResult) \<times> 's"
  delete_impl :: "string \<Rightarrow> js_object option \<Rightarrow> 's \<Rightarrow> (oss_error + ObjectResult) \<times> 's"
  copy_impl :: "string \<Rightarrow> string \<Rightarrow> js_object option \<Rightarrow> 's \<Rightarrow> (oss_error + ObjectResult) \<times> 's"
  getStream_impl :: "string \<Rightarrow> js_object option \<Rightarrow> 's \<Rightarrow> (oss_error + StreamResult) \<times> 's"
  signatureUrl_impl :: "string \<Rightarrow> js_object \<Rightarrow> 's \<Rightarrow> (oss_error + string) \<times> 's"
  generateObjectUrl :: "string \<Rightarrow> string"

text \<open>The requests a driver sends to the client, with the arguments in the client's own
  order (\<open>ReqCopy name sourceName options\<close>: the target name comes first).\<close>

datatype request =
    ReqHead string "js_object option"
  | ReqGet string
  | ReqPut string body "js_object option"
  | ReqPutStream string readable js_object
  | ReqDelete string "js_object option"
  | ReqCopy string string "js_object option"
  | ReqGetStream string "js_object option"
  | ReqSignatureUrl string js_object

text \<open>The world a driver runs in: the backend state and the requests sent so far.\<close>

record 's world =
  backend :: 's
  requests :: "request list"

definition send :: "request \<Rightarrow> ('s \<Rightarrow> 'r \<times> 's) \<Rightarrow> 's world \<Rightarrow> 'r \<times> 's world" where
  "send rq f w =
     (case f (backend w) of (x, s') \<Rightarrow> (x, \<lparr>backend = s', requests = requests w @ [rq]\<rparr>))"

definition OSS_head ::
  "'s OSS \<Rightarrow> string \<Rightarrow> js_object option \<Rightarrow> 's world \<Rightarrow> (oss_error + ObjectResult) \<times> 's world" where
  "OSS_head c name opts = send (ReqHead name opts) (head_impl c name opts)"

definition OSS_get :: "'s OSS \<Rightarrow> string \<Rightarrow> 's world \<Rightarrow> (oss_error + GetResult) \<times> 's world" where
  "OSS_get c name = send (ReqGet name) (get_impl c name)"

definition OSS_put ::
  "'s OSS \<Rightarrow> string \<Rightarrow> body \<Rightarrow> js_object option \<Rightarrow> 's world \<Rightarrow> (oss_error + ObjectResult) \<times> 's world" where
  "OSS_put c name file opts = send (ReqPut name file opts) (put_impl c name file opts)"

definition OSS_putStream ::
  "'s OSS \<Rightarrow> string \<Rightarrow> readable \<Rightarrow> js_object \<Rightarrow> 's world \<Rightarrow> (oss_error + ObjectResult) \<times> 's world" where
  "OSS_putStream c name file opts = send (ReqPutStream name file opts) (putStream_impl c name file opts)"

definition OSS_delete ::
  "'s OSS \<Rightarrow> string \<Rightarrow> js_object option \<Rightarrow> 's world \<Rightarrow> (oss_error + ObjectResult) \<times> 's world" where
  "OSS_delete c name opts = send (ReqDelete name opts) (delete_impl c name opts)"

definition OSS_copy ::
  "'s OSS \<Rightarrow> string \<Rightarrow> string \<Rightarrow> js_object option \<Rightarrow> 's world \<Rightarrow> (oss_error + ObjectResult) \<times> 's world" where
  "OSS_copy c name sourceName opts = send (ReqCopy name sourceName opts) (copy_impl c name sourceName opts)"

definition OSS_getStream ::
  "'s OSS \<Rightarrow> string \<Rightarrow> js_object option \<Rightarrow> 's world \<Rightarrow> (oss_error + StreamResult) \<times> 's world" where
  "OSS_getStream c name opts = send (ReqGetStream name opts) (getStream_impl c name opts)"

definition OSS_signatureUrl ::
  "'s OSS \<Rightarrow> string \<Rightarrow> js_object \<Rightarrow> 's world \<Rightarrow> (oss_error + string) \<times> 's world" where
  "OSS_signatureUrl c name params = send (ReqSignatureUrl name params) (signatureUrl_impl c name params)"

section \<open>Exceptions and response envelopes\<close>

text \<open>
  Modelled from the spec: the exception classes of \<^verbatim>\<open>../Exceptions\<close> are not among the
  sources. The spec's error record holds the kind, the original cause, a code and the path;
  so \<open>FileNotFound err path\<close> and \<open>UnknownException err errorCode path\<close> hold the
  arguments \<^verbatim>\<open>handleError\<close> constructs them with. The other constructors are what a
  method can throw besides: \<open>Thrown err\<close> is a client error that leaves a method as it was
  thrown, \<open>TypeError\<close> is thrown by the runtime itself, and \<open>Error msg\<close> is
  \<^verbatim>\<open>Error(msg)\<close>, thrown by the older driver's \<^verbatim>\<open>get\<close>.
\<close>

datatype exception =
    FileNotFound oss_error string
  | UnknownException oss_error string string
  | Thrown oss_error
  | TypeError string
  | Error string

text \<open>
  Modelled from the spec: the envelope types of \<^verbatim>\<open>../types\<close> are not among the sources.
  Each is the object literal the driver returns: \<^verbatim>\<open>raw\<close> beside one normalised field.
  \<^verbatim>\<open>raw\<close> is untyped in the source: it holds a client result, a caught error object, a
  string, or \<^verbatim>\<open>undefined\<close>.
\<close>

datatype raw =
    RawUndefined
  | RawObject ObjectResult
  | RawGet GetResult
  | RawError oss_error
  | RawString string

record Response =
  raw :: raw

record ExistsResponse = Response +
  exists :: bool

record 'c ContentResponse = Response +
  content :: 'c

record SignedUrlResponse = Response +
  signedUrl :: string

record ('n, 'd) StatResponse = Response +
  stat_size :: 'n
  stat_modified :: 'd

text \<open>The functions of the runtime the TypeScript driver calls: \<^verbatim>\<open>Buffer.toString\<close>
  (which throws on an encoding name it does not know), \<^verbatim>\<open>Number\<close> and
  \<^verbatim>\<open>new Date\<close> (applied to a header that may be absent).\<close>

record ('n, 'd) node =
  toString :: "content \<Rightarrow> string \<Rightarrow> exception + string"
  Number :: "string option \<Rightarrow> 'n"
  Date :: "string option \<Rightarrow> 'd"

section \<open>The TypeScript driver: class AliyunOSS\<close>

fun handleError :: "oss_error \<Rightarrow> string \<Rightarrow> exception" where
  "handleError err path =
     (if err_name err = ''NoSuchKeyError'' then FileNotFound err path
      else UnknownException err (err_name err) path)"

record 's AliyunOSS =
  dollar_driver :: "'s OSS"
  dollar_config :: Options
  dollar_bucket :: string

text \<open>The constructor; \<open>new_OSS\<close> is the client's constructor \<^verbatim>\<open>new OSS(...)\<close>.\<close>

definition configParams :: "AliyunOSSConfig \<Rightarrow> Options" where
  "configParams config =
     AliyunOSSConfig.extend config
       (Options.fields (key config) (secret config))"

definition AliyunOSS_new :: "(Options \<Rightarrow> 's OSS) \<Rightarrow> AliyunOSSConfig \<Rightarrow> 's AliyunOSS" where
  "AliyunOSS_new new_OSS config =
     \<lparr>dollar_driver = new_OSS (configParams config),
      dollar_config = configParams config,
      dollar_bucket = bucket config\<rparr>"

text \<open>\<^verbatim>\<open>bucket(bucket)\<close> returns \<^verbatim>\<open>new OSS({...this.$config, bucket})\<close>; no field of
  the receiver is assigned, and the receiver after the call is returned beside the result.\<close>

definition AliyunOSS_bucket ::
  "(Options \<Rightarrow> 's OSS) \<Rightarrow> string \<Rightarrow> 's AliyunOSS \<Rightarrow> 's OSS \<times> 's AliyunOSS" where
  "AliyunOSS_bucket new_OSS b this = (new_OSS ((dollar_config this)\<lparr>bucket := b\<rparr>), this)"

definition AliyunOSS_copy ::
  "'s AliyunOSS \<Rightarrow> string \<Rightarrow> string \<Rightarrow> js_object option \<Rightarrow> 's world \<Rightarrow> (exception + Response) \<times> 's world" where
  "AliyunOSS_copy this src dest opts w =
     (case OSS_copy (dollar_driver this) dest src opts w of
        (Inr result, w') \<Rightarrow> (Inr \<lparr>raw = RawObject result\<rparr>, w')
      | (Inl e, w') \<Rightarrow> (Inl (handleError e src), w'))"

definition AliyunOSS_delete ::
  "'s AliyunOSS \<Rightarrow> string \<Rightarrow> js_object option \<Rightarrow> 's world \<Rightarrow> (exception + Response) \<times> 's world" where
  "AliyunOSS_delete this location opts w =
     (case OSS_delete (dollar_driver this) location opts w of
        (Inr result, w') \<Rightarrow> (Inr \<lparr>raw = RawObject result\<rparr>, w')
      | (Inl e, w') \<Rightarrow> (Inl (handleError e location), w'))"

definition AliyunOSS_driver :: "'s AliyunOSS \<Rightarrow> 's OSS" where
  "AliyunOSS_driver this = dollar_driver this"

definition AliyunOSS_exists ::
  "'s AliyunOSS \<Rightarrow> string \<Rightarrow> js_object option \<Rightarrow> 's world \<Rightarrow> (exception + ExistsResponse) \<times> 's world" where
  "AliyunOSS_exists this location opts w =
     (case OSS_head (dollar_driver this) location opts w of
        (Inr result, w') \<Rightarrow> (Inr \<lparr>raw = RawObject result, exists = True\<rparr>, w')
      | (Inl e, w') \<Rightarrow>
          (if err_status e = Some 404 then (Inr \<lparr>raw = RawError e, exists = False\<rparr>, w')
           else (Inl (handleError e location), w')))"

definition AliyunOSS_getBuffer ::
  "'s AliyunOSS \<Rightarrow> string \<Rightarrow> 's world \<Rightarrow> (exception + content ContentResponse) \<times> 's world" where
  "AliyunOSS_getBuffer this location w =
     (case OSS_get (dollar_driver this) location w of
        (Inr result, w') \<Rightarrow>
          (let body = res_content result in (Inr \<lparr>raw = RawGet result, content = body\<rparr>, w'))
      | (Inl e, w') \<Rightarrow> (Inl (handleError e location), w'))"

text \<open>\<^verbatim>\<open>get(location, encoding = 'utf-8')\<close>: the encoding is \<open>None\<close> when the caller
  leaves it out. The call of \<^verbatim>\<open>toString\<close> is outside any \<^verbatim>\<open>try\<close>.\<close>

definition AliyunOSS_get ::
  "('n, 'd) node \<Rightarrow> 's AliyunOSS \<Rightarrow> string \<Rightarrow> string option \<Rightarrow> 's world \<Rightarrow>
     (exception + string ContentResponse) \<times> 's world" where
  "AliyunOSS_get rt this location enc w =
     (let encoding = (case enc of None \<Rightarrow> ''utf-8'' | Some e \<Rightarrow> e) in
      case AliyunOSS_getBuffer this location w of
        (Inl x, w') \<Rightarrow> (Inl x, w')
      | (Inr bufferResult, w') \<Rightarrow>
          (case toString rt (content bufferResult) encoding of
             Inl x \<Rightarrow> (Inl x, w')
           | Inr s \<Rightarrow> (Inr \<lparr>raw = raw bufferResult, content = s\<rparr>, w')))"

text \<open>\<^verbatim>\<open>getSignedUrl(location, options = {})\<close>: \<^verbatim>\<open>const { expiry = 900 } = options\<close>
  takes the default when the property is absent or \<^verbatim>\<open>undefined\<close>, and
  \<^verbatim>\<open>Object.assign({ expires: expiry }, options)\<close> lets every own property of
  \<^verbatim>\<open>options\<close> overwrite the target's.\<close>

definition Object_assign :: "js_object \<Rightarrow> js_object \<Rightarrow> js_object" where
  "Object_assign target source = target ++ source"

definition AliyunOSS_getSignedUrl ::
  "'s AliyunOSS \<Rightarrow> string \<Rightarrow> js_object option \<Rightarrow> 's world \<Rightarrow> (exception + SignedUrlResponse) \<times> 's world" where
  "AliyunOSS_getSignedUrl this location opts w =
     (let options = (case opts of None \<Rightarrow> Map.empty | Some ob \<Rightarrow> ob);
          expiry = (case options ''expiry'' of
                      None \<Rightarrow> JNumber 900
                    | Some JUndefined \<Rightarrow> JNumber 900
                    | Some v \<Rightarrow> v);
          params = Object_assign [''expires'' \<mapsto> expiry] options
      in case OSS_signatureUrl (dollar_driver this) location params w of
           (Inr result, w') \<Rightarrow> (Inr \<lparr>raw = RawString result, signedUrl = result\<rparr>, w')
         | (Inl e, w') \<Rightarrow> (Inl (handleError e location), w'))"

definition AliyunOSS_getStat ::
  "('n, 'd) node \<Rightarrow> 's AliyunOSS \<Rightarrow> string \<Rightarrow> 's world \<Rightarrow> (exception + ('n, 'd) StatResponse) \<times> 's world" where
  "AliyunOSS_getStat rt this location w =
     (case OSS_head (dollar_driver this) location None w of
        (Inr result, w') \<Rightarrow>
          (Inr \<lparr>raw = RawObject result,
                stat_size = Number rt (res_headers result ''content-length''),
                stat_modified = Date rt (res_headers result ''last-modified'')\<rparr>, w')
      | (Inl e, w') \<Rightarrow> (Inl (handleError e location), w'))"

text \<open>\<^verbatim>\<open>getStream\<close> has no \<^verbatim>\<open>try\<close>: a rejection of the client's call leaves the
  method as it is.\<close>

definition AliyunOSS_getStream ::
  "'s AliyunOSS \<Rightarrow> string \<Rightarrow> 's world \<Rightarrow> (exception + readable) \<times> 's world" where
  "AliyunOSS_getStream this location w =
     (case OSS_getStream (dollar_driver this) location None w of
        (Inr result, w') \<Rightarrow> (Inr (res_stream result), w')
      | (Inl e, w') \<Rightarrow> (Inl (Thrown e), w'))"

definition AliyunOSS_getUrl :: "'s AliyunOSS \<Rightarrow> string \<Rightarrow> string" where
  "AliyunOSS_getUrl this location = generateObjectUrl (dollar_driver this) location"

definition AliyunOSS_move ::
  "'s AliyunOSS \<Rightarrow> string \<Rightarrow> string \<Rightarrow> 's world \<Rightarrow> (exception + Response) \<times> 's world" where
  "AliyunOSS_move this src dest w =
     (case AliyunOSS_copy this src dest None w of
        (Inl x, w1) \<Rightarrow> (Inl x, w1)
      | (Inr _, w1) \<Rightarrow>
          (case AliyunOSS_delete this src None w1 of
             (Inl x, w2) \<Rightarrow> (Inl x, w2)
           | (Inr _, w2) \<Rightarrow> (Inr \<lparr>raw = RawUndefined\<rparr>, w2)))"

definition AliyunOSS_put ::
  "'s AliyunOSS \<Rightarrow> string \<Rightarrow> body \<Rightarrow> js_object option \<Rightarrow> 's world \<Rightarrow> (exception + Response) \<times> 's world" where
  "AliyunOSS_put this location file opts w =
     (case OSS_put (dollar_driver this) location file opts w of
        (Inr result, w') \<Rightarrow> (Inr \<lparr>raw = RawObject result\<rparr>, w')
      | (Inl e, w') \<Rightarrow> (Inl (handleError e location), w'))"

section \<open>The contract operations, as a caller invokes them\<close>

text \<open>
  One constructor per method of the storage contract that \<^verbatim>\<open>AliyunOSS\<close> implements,
  and one result shape per return type of the class. \<open>invoke\<close> dispatches a call to the
  method of that name; \<^verbatim>\<open>getUrl\<close> is the only synchronous one and takes no part in
  the world.
\<close>

datatype operation =
    CallCopy string string "js_object option"
  | CallDelete string "js_object option"
  | CallExists string "js_object option"
  | CallGet string "string option"
  | CallGetBuffer string
  | CallGetSignedUrl string "js_object option"
  | CallGetStat string
  | CallGetStream string
  | CallGetUrl string
  | CallMove string string
  | CallPut string body "js_object option"

datatype ('n, 'd) outcome =
    Plain Response
  | Existence ExistsResponse
  | Text "string ContentResponse"
  | Bytes "content ContentResponse"
  | Signed SignedUrlResponse
  | Stat "('n, 'd) StatResponse"
  | Stream readable
  | Url string

fun invoke ::
  "('n, 'd) node \<Rightarrow> 's AliyunOSS \<Rightarrow> operation \<Rightarrow> 's world \<Rightarrow>
     (exception + ('n, 'd) outcome) \<times> 's world" where
  "invoke rt this (CallCopy src dest opts) w = apfst (map_sum id Plain) (AliyunOSS_copy this src dest opts w)"
| "invoke rt this (CallDelete location opts) w = apfst (map_sum id Plain) (AliyunOSS_delete this location opts w)"
| "invoke rt this (CallExists location opts) w = apfst (map_sum id Existence) (AliyunOSS_exists this location opts w)"
| "invoke rt this (CallGet location enc) w = apfst (map_sum id Text) (AliyunOSS_get rt this location enc w)"
| "invoke rt this (CallGetBuffer location) w = apfst (map_sum id Bytes) (AliyunOSS_getBuffer this location w)"
| "invoke rt this (CallGetSignedUrl location opts) w = apfst (map_sum id Signed) (AliyunOSS_getSignedUrl this location opts w)"
| "invoke rt this (CallGetStat location) w = apfst (map_sum id Stat) (AliyunOSS_getStat rt this location w)"
| "invoke rt this (CallGetStream location) w = apfst (map_sum id Stream) (AliyunOSS_getStream this location w)"
| "invoke rt this (CallGetUrl location) w = (Inr (Url (AliyunOSS_getUrl this location)), w)"
| "invoke rt this (CallMove src dest) w = apfst (map_sum id Plain) (AliyunOSS_move this src dest w)"
| "invoke rt this (CallPut location file opts) w = apfst (map_sum id Plain) (AliyunOSS_put this location file opts w)"

text \<open>The \<^verbatim>\<open>raw\<close> property of a result (a stream and a URL string are not envelopes and
  have none), and whether the result has a \<^verbatim>\<open>content\<close> property.\<close>

fun raw_field :: "('n, 'd) outcome \<Rightarrow> raw option" where
  "raw_field (Plain r) = Some (raw r)"
| "raw_field (Existence r) = Some (raw r)"
| "raw_field (Text r) = Some (raw r)"
| "raw_field (Bytes r) = Some (raw r)"
| "raw_field (Signed r) = Some (raw r)"
| "raw_field (Stat r) = Some (raw r)"
| "raw_field (Stream _) = None"
| "raw_field (Url _) = None"

fun has_content :: "('n, 'd) outcome \<Rightarrow> bool" where
  "has_content (Text _) = True"
| "has_content (Bytes _) = True"
| "has_content _ = False"

text \<open>The kinds of the error taxonomy: the two exception classes of the package.\<close>

fun taxonomy :: "exception \<Rightarrow> bool" where
  "taxonomy (FileNotFound _ _) = True"
| "taxonomy (UnknownException _ _ _) = True"
| "taxonomy _ = False"

section \<open>The older driver: class Aliyun\<close>

text \<open>
  Modelled from the spec: the class \<^verbatim>\<open>Resetable\<close> (package \<^verbatim>\<open>resetable\<close>) the older
  driver keeps its bucket in is not among the sources. The spec calls it a mutable
  "pull one override" pattern: the object holds the value it was created with and a
  current value; \<^verbatim>\<open>set\<close> replaces the current value, \<^verbatim>\<open>pull\<close> returns the
  current value and puts the original one back.
\<close>

record 'a Resetable =
  originalValue :: 'a
  currentValue :: 'a

definition Resetable_new :: "'a \<Rightarrow> 'a Resetable" where
  "Resetable_new v = \<lparr>originalValue = v, currentValue = v\<rparr>"

definition Resetable_set :: "'a \<Rightarrow> 'a Resetable \<Rightarrow> 'a Resetable" where
  "Resetable_set v r = r\<lparr>currentValue := v\<rparr>"

definition Resetable_pull :: "'a Resetable \<Rightarrow> 'a \<times> 'a Resetable" where
  "Resetable_pull r = (currentValue r, r\<lparr>currentValue := originalValue r\<rparr>)"

record 's Aliyun =
  oss :: "'s OSS"
  u_bucket :: "string Resetable"

text \<open>Every method of the older driver returns its result, the receiver after the call
  and the world after the call. Nothing is caught: a client error leaves as \<open>Thrown\<close>.\<close>

definition Aliyun_new :: "(Options \<Rightarrow> 's OSS) \<Rightarrow> AliyunOSSConfig \<Rightarrow> 's Aliyun" where
  "Aliyun_new new_OSS config =
     \<lparr>oss = new_OSS ((configParams config)\<lparr>region := region config, secure := secure config\<rparr>),
      u_bucket = Resetable_new (bucket config)\<rparr>"

text \<open>\<^verbatim>\<open>bucket\<close> returns \<^verbatim>\<open>this\<close>: the result is the receiver itself, after the
  assignment.\<close>

definition Aliyun_bucket :: "string \<Rightarrow> 's Aliyun \<Rightarrow> 's Aliyun \<times> 's Aliyun" where
  "Aliyun_bucket b this =
     (let this' = this\<lparr>u_bucket := Resetable_set b (u_bucket this)\<rparr> in (this', this'))"

definition Aliyun_exists ::
  "string \<Rightarrow> js_object option \<Rightarrow> 's Aliyun \<Rightarrow> 's world \<Rightarrow> (exception + bool) \<times> 's Aliyun \<times> 's world" where
  "Aliyun_exists location params this w =
     (case OSS_head (oss this) location params w of
        (Inl e, w') \<Rightarrow> (Inl (Thrown e), this, w')
      | (Inr _, w') \<Rightarrow> (Inr True, this, w'))"

definition Aliyun_put ::
  "string \<Rightarrow> body \<Rightarrow> js_object option \<Rightarrow> 's Aliyun \<Rightarrow> 's world \<Rightarrow>
     (exception + ObjectResult) \<times> 's Aliyun \<times> 's world" where
  "Aliyun_put location file params this w =
     (case OSS_put (oss this) location file params w of
        (Inl e, w') \<Rightarrow> (Inl (Thrown e), this, w')
      | (Inr response, w') \<Rightarrow> (Inr response, this, w'))"

definition Aliyun_delete ::
  "string \<Rightarrow> js_object option \<Rightarrow> 's Aliyun \<Rightarrow> 's world \<Rightarrow> (exception + bool) \<times> 's Aliyun \<times> 's world" where
  "Aliyun_delete location params this w =
     (let params' = (case params of None \<Rightarrow> Map.empty | Some p \<Rightarrow> p) in
      case OSS_delete (oss this) location (Some params') w of
        (Inl e, w') \<Rightarrow> (Inl (Thrown e), this, w')
      | (Inr _, w') \<Rightarrow> (Inr True, this, w'))"

definition Aliyun_get ::
  "string \<Rightarrow> 's Aliyun \<Rightarrow> 's world \<Rightarrow> (exception + buffer) \<times> 's Aliyun \<times> 's world" where
  "Aliyun_get location this w =
     (case OSS_get (oss this) location w of
        (Inl e, w') \<Rightarrow> (Inl (Thrown e), this, w')
      | (Inr response, w') \<Rightarrow>
          (case res_content response of
             Buffer b \<Rightarrow> (Inr b, this, w')
           | NotBuffer s \<Rightarrow> (Inl (Error s), this, w')))"

definition Aliyun_getStream ::
  "string \<Rightarrow> js_object option \<Rightarrow> 's Aliyun \<Rightarrow> 's world \<Rightarrow>
     (exception + readable) \<times> 's Aliyun \<times> 's world" where
  "Aliyun_getStream location params this w =
     (let params' = (case params of None \<Rightarrow> Map.empty | Some p \<Rightarrow> p) in
      case OSS_getStream (oss this) location (Some params') w of
        (Inl e, w') \<Rightarrow> (Inl (Thrown e), this, w')
      | (Inr result, w') \<Rightarrow> (Inr (res_stream result), this, w'))"

definition Aliyun_putStream ::
  "string \<Rightarrow> readable \<Rightarrow> js_object option \<Rightarrow> 's Aliyun \<Rightarrow> 's world \<Rightarrow>
     (exception + ObjectResult) \<times> 's Aliyun \<times> 's world" where
  "Aliyun_putStream location file params this w =
     (let params' = (case params of None \<Rightarrow> Map.empty | Some p \<Rightarrow> p) in
      case OSS_putStream (oss this) location file params' w of
        (Inl e, w') \<Rightarrow> (Inl (Thrown e), this, w')
      | (Inr response, w') \<Rightarrow> (Inr response, this, w'))"

text \<open>\<^verbatim>\<open>bucket = bucket || this._bucket.pull()\<close>: the bucket is pulled only when the
  argument is left out or is the empty string. An absent region prints as
  \<^verbatim>\<open>undefined\<close> in the template string.\<close>

definition Aliyun_getUrl :: "string \<Rightarrow> string option \<Rightarrow> 's Aliyun \<Rightarrow> string \<times> 's Aliyun" where
  "Aliyun_getUrl location bucket_arg this =
     (let (bucket', this') =
            (case bucket_arg of
               Some b \<Rightarrow>
                 (if b \<noteq> [] then (b, this)
                  else (case Resetable_pull (u_bucket this) of (v, r) \<Rightarrow> (v, this\<lparr>u_bucket := r\<rparr>)))
             | None \<Rightarrow> (case Resetable_pull (u_bucket this) of (v, r) \<Rightarrow> (v, this\<lparr>u_bucket := r\<rparr>)));
          protocol = (if secure (options (oss this)) = Some True then ''https://'' else ''http://'');
          region' = (case region (options (oss this)) of None \<Rightarrow> ''undefined'' | Some r \<Rightarrow> r)
      in (protocol @ bucket' @ ''.'' @ region' @ ''.aliyuncs.com/'' @ location, this'))"

text \<open>The string \<^verbatim>\<open>getUrl\<close> builds for a bucket \<open>b\<close>, written once for the statements
  below.\<close>

definition Aliyun_url :: "'s Aliyun \<Rightarrow> string \<Rightarrow> string \<Rightarrow> string" where
  "Aliyun_url this b location =
     (if secure (options (oss this)) = Some True then ''https://'' else ''http://'') @ b @ ''.'' @
     (case region (options (oss this)) of None \<Rightarrow> ''undefined'' | Some r \<Rightarrow> r) @
     ''.aliyuncs.com/'' @ location"

definition Aliyun_copy ::
  "string \<Rightarrow> string \<Rightarrow> string option \<Rightarrow> 's Aliyun \<Rightarrow> 's world \<Rightarrow>
     (exception + string) \<times> 's Aliyun \<times> 's world" where
  "Aliyun_copy src dest destBucket this w =
     (case Resetable_pull (u_bucket this) of
        (bucket', r) \<Rightarrow>
          (let this1 = this\<lparr>u_bucket := r\<rparr>;
               combinedDest = ''/'' @ bucket' @ ''/'' @ src
           in case OSS_copy (oss this1) dest combinedDest None w of
                (Inl e, w') \<Rightarrow> (Inl (Thrown e), this1, w')
              | (Inr _, w') \<Rightarrow>
                  (case Aliyun_getUrl dest destBucket this1 of
                     (url, this2) \<Rightarrow> (Inr url, this2, w'))))"

definition Aliyun_move ::
  "string \<Rightarrow> string \<Rightarrow> string option \<Rightarrow> 's Aliyun \<Rightarrow> 's world \<Rightarrow>
     (exception + string) \<times> 's Aliyun \<times> 's world" where
  "Aliyun_move src dest destBucket this w =
     (case Aliyun_copy src dest destBucket this w of
        (Inl x, this1, w1) \<Rightarrow> (Inl x, this1, w1)
      | (Inr url, this1, w1) \<Rightarrow>
          (case Aliyun_delete src None this1 w1 of
             (Inl x, this2, w2) \<Rightarrow> (Inl x, this2, w2)
           | (Inr _, this2, w2) \<Rightarrow> (Inr url, this2, w2)))"

text \<open>The calls a user of the older driver can make, run one after the other on the same
  driver object. The result of each call is dropped here (the caller may catch an
  exception and go on); what is kept is the driver and the world.\<close>

datatype legacy_call =
    LBucket string
  | LExists string "js_object option"
  | LPut string body "js_object option"
  | LDelete string "js_object option"
  | LGet string
  | LGetStream string "js_object option"
  | LPutStream string readable "js_object option"
  | LGetUrl string "string option"
  | LCopy string string "string option"
  | LMove string string "string option"

fun Aliyun_call :: "legacy_call \<Rightarrow> 's Aliyun \<Rightarrow> 's world \<Rightarrow> 's Aliyun \<times> 's world" where
  "Aliyun_call (LBucket b) this w = (snd (Aliyun_bucket b this), w)"
| "Aliyun_call (LExists location params) this w = snd (Aliyun_exists location params this w)"
| "Aliyun_call (LPut location file params) this w = snd (Aliyun_put location file params this w)"
| "Aliyun_call (LDelete location params) this w = snd (Aliyun_delete location params this w)"
| "Aliyun_call (LGet location) this w = snd (Aliyun_get location this w)"
| "Aliyun_call (LGetStream location params) this w = snd (Aliyun_getStream location params this w)"
| "Aliyun_call (LPutStream location file params) this w = snd (Aliyun_putStream location file params this w)"
| "Aliyun_call (LGetUrl location b) this w = (snd (Aliyun_getUrl location b this), w)"
| "Aliyun_call (LCopy src dest destBucket) this w = snd (Aliyun_copy src dest destBucket this w)"
| "Aliyun_call (LMove src dest destBucket) this w = snd (Aliyun_move src dest destBucket this w)"

fun Aliyun_run :: "legacy_call list \<Rightarrow> 's Aliyun \<Rightarrow> 's world \<Rightarrow> 's Aliyun \<times> 's world" where
  "Aliyun_run [] this w = (this, w)"
| "Aliyun_run (c # cs) this w =
     (case Aliyun_call c this w of (this', w') \<Rightarrow> Aliyun_run cs this' w')"

text \<open>The calls that set the bucket, and the calls that pull it.\<close>

fun sets_bucket :: "legacy_call \<Rightarrow> bool" where
  "sets_bucket (LBucket _) = True"
| "sets_bucket _ = False"

fun pulls_bucket :: "legacy_call \<Rightarrow> bool" where
  "pulls_bucket (LGetUrl _ None) = True"
| "pulls_bucket (LGetUrl _ (Some b)) = (b = [])"
| "pulls_bucket (LCopy _ _ _) = True"
| "pulls_bucket (LMove _ _ _) = True"
| "pulls_bucket _ = False"

section \<open>A client over an in-memory store\<close>

text \<open>
  The theorems below hold for every client. To evaluate the drivers on concrete inputs, this
  section gives one client: a single bucket held as a map from keys to contents, with a list
  of write-protected keys. A missing key is reported the way the drivers expect it (error
  name \<^verbatim>\<open>NoSuchKeyError\<close>, status 404), a write to a protected key is refused with
  status 403, and a source name of the form \<^verbatim>\<open>/bucket/key\<close> is read as \<^verbatim>\<open>key\<close>.
\<close>

record store =
  objects :: "string \<rightharpoonup> buffer"
  readonly :: "string list"

definition noSuchKey :: oss_error where
  "noSuchKey = \<lparr>err_name = ''NoSuchKeyError'', err_status = Some 404\<rparr>"

definition accessDenied :: oss_error where
  "accessDenied = \<lparr>err_name = ''AccessDeniedError'', err_status = Some 403\<rparr>"

definition ok :: ObjectResult where
  "ok = \<lparr>res_status = 200, res_headers = Map.empty\<rparr>"

definition source_key :: "string \<Rightarrow> string \<Rightarrow> string" where
  "source_key b sourceName =
     (let prefix = ''/'' @ b @ ''/'' in
      if take (length prefix) sourceName = prefix then drop (length prefix) sourceName
      else sourceName)"

definition store_client :: "Options \<Rightarrow> store OSS" where
  "store_client opts =
     \<lparr>options = opts,
      head_impl = (\<lambda>name _ s.
        case objects s name of
          None \<Rightarrow> (Inl noSuchKey, s)
        | Some b \<Rightarrow> (Inr ok, s)),
      get_impl = (\<lambda>name s.
        case objects s name of
          None \<Rightarrow> (Inl noSuchKey, s)
        | Some b \<Rightarrow>
            (Inr \<lparr>res_status = 200, res_headers = Map.empty, res_content = Buffer b\<rparr>, s)),
      put_impl = (\<lambda>name file _ s.
        if name \<in> set (readonly s) then (Inl accessDenied, s)
        else (case file of
                BufferBody b \<Rightarrow> (Inr ok, s\<lparr>objects := (objects s)(name \<mapsto> b)\<rparr>)
              | StreamBody (Readable chunks) \<Rightarrow>
                  (Inr ok, s\<lparr>objects := (objects s)(name \<mapsto> concat chunks)\<rparr>)
              | PathBody p \<Rightarrow> (Inl \<lparr>err_name = ''Error'', err_status = None\<rparr>, s))),
      putStream_impl = (\<lambda>name file _ s.
        if name \<in> set (readonly s) then (Inl accessDenied, s)
        else (case file of
                Readable chunks \<Rightarrow>
                  (Inr ok, s\<lparr>objects := (objects s)(name \<mapsto> concat chunks)\<rparr>))),
      delete_impl = (\<lambda>name _ s.
        if name \<in> set (readonly s) then (Inl accessDenied, s)
        else (Inr (ok\<lparr>res_status := 204\<rparr>), s\<lparr>objects := (objects s)(name := None)\<rparr>)),
      copy_impl = (\<lambda>name sourceName _ s.
        case objects s (source_key (bucket opts) sourceName) of
          None \<Rightarrow> (Inl noSuchKey, s)
        | Some b \<Rightarrow>
            if name \<in> set (readonly s) then (Inl accessDenied, s)
            else (Inr ok, s\<lparr>objects := (objects s)(name \<mapsto> b)\<rparr>)),
      getStream_impl = (\<lambda>name _ s.
        case objects s name of
          None \<Rightarrow> (Inl noSuchKey, s)
        | Some b \<Rightarrow>
            (Inr \<lparr>res_status = 200, res_headers = Map.empty, res_stream = Readable [b]\<rparr>, s)),
      signatureUrl_impl = (\<lambda>name params s.
        (Inr (''http://'' @ bucket opts @ ''.example.com/'' @ name @ ''?Signature=x''), s)),
      generateObjectUrl = (\<lambda>name. ''http://'' @ bucket opts @ ''.example.com/'' @ name)\<rparr>"

text \<open>A runtime that decodes \<^verbatim>\<open>utf-8\<close> only (a string being held as its UTF-8 bytes) and
  throws on any other encoding name; numbers and dates are kept as the header text.\<close>

definition utf8_node :: "(string option, string option) node" where
  "utf8_node =
     \<lparr>toString = (\<lambda>c encoding.
        case c of
          Buffer b \<Rightarrow>
            (if encoding = ''utf-8'' \<or> encoding = ''utf8'' then Inr b
             else Inl (TypeError (''Unknown encoding: '' @ encoding)))
        | NotBuffer s \<Rightarrow> Inr s),
      Number = (\<lambda>h. h),
      Date = (\<lambda>h. h)\<rparr>"

definition test_config :: AliyunOSSConfig where
  "test_config =
     \<lparr>key = ''k'', secret = ''s'', bucket = ''media'', endpoint = None,
      region = Some ''oss-cn-hangzhou'', internal = Some False, secure = Some False\<rparr>"

definition test_objects :: "string \<rightharpoonup> buffer" where
  "test_objects = [''a.txt'' \<mapsto> ''test-data'', ''locked.txt'' \<mapsto> ''keep'']"

definition test_store :: "store world" where
  "test_store =
     \<lparr>backend = \<lparr>objects = test_objects, readonly = [''locked.txt'']\<rparr>, requests = []\<rparr>"

definition test_driver :: "store AliyunOSS" where
  "test_driver = AliyunOSS_new store_client test_config"

definition test_legacy :: "store Aliyun" where
  "test_legacy = Aliyun_new store_client test_config"

section \<open>Unfolding the client and the in-memory store\<close>

lemmas client_defs = OSS_head_def OSS_get_def OSS_put_def OSS_putStream_def OSS_delete_def
  OSS_copy_def OSS_getStream_def OSS_signatureUrl_def send_def

lemmas test_defs = test_driver_def test_legacy_def test_store_def test_config_def test_objects_def
  store_client_def AliyunOSS_new_def Aliyun_new_def configParams_def source_key_def
  Resetable_new_def AliyunOSSConfig.extend_def Options.fields_def

lemmas AliyunOSS_defs = AliyunOSS_copy_def AliyunOSS_delete_def AliyunOSS_exists_def
  AliyunOSS_get_def AliyunOSS_getBuffer_def AliyunOSS_getSignedUrl_def AliyunOSS_getStat_def
  AliyunOSS_getStream_def AliyunOSS_getUrl_def AliyunOSS_move_def AliyunOSS_put_def

section \<open>Move: copy, then delete\<close>

lemma AliyunOSS_copy_requests:
  "requests (snd (AliyunOSS_copy this src dest opts w)) = requests w @ [ReqCopy dest src opts]"
  by (simp add: AliyunOSS_copy_def OSS_copy_def send_def split: prod.splits sum.splits)

lemma AliyunOSS_delete_requests:
  "requests (snd (AliyunOSS_delete this location opts w)) = requests w @ [ReqDelete location opts]"
  by (simp add: AliyunOSS_delete_def OSS_delete_def send_def split: prod.splits sum.splits)

lemma Aliyun_copy_requests:
  "requests (snd (snd (Aliyun_copy src dest destBucket this w))) =
     requests w @ [ReqCopy dest (''/'' @ currentValue (u_bucket this) @ ''/'' @ src) None]"
  by (simp add: Aliyun_copy_def Resetable_pull_def OSS_copy_def send_def Let_def
      split: prod.splits sum.splits)

lemma Aliyun_delete_requests:
  "requests (snd (snd (Aliyun_delete location None this w))) =
     requests w @ [ReqDelete location (Some Map.empty)]"
  by (simp add: Aliyun_delete_def OSS_delete_def send_def Let_def split: prod.splits sum.splits)

text \<open>
  C1. In both drivers \<^verbatim>\<open>move(src, dest)\<close> is \<^verbatim>\<open>copy(src, dest)\<close> followed by
  \<^verbatim>\<open>delete(src)\<close>. If the copy raises, move raises the same exception and no delete is
  sent. If the copy succeeds and the delete raises, move raises the exception of the delete,
  and the world it leaves is the one the delete left: the requests sent are the copy and
  the delete and nothing else, so nothing undoes the copy. Move succeeds exactly when both
  steps succeed.
\<close>

theorem move_is_copy_then_delete:
  fixes this :: "'s AliyunOSS" and that :: "'s Aliyun"
  shows
  "(\<forall>x w1. AliyunOSS_copy this src dest None w = (Inl x, w1) \<longrightarrow>
        AliyunOSS_move this src dest w = (Inl x, w1) \<and>
        requests w1 = requests w @ [ReqCopy dest src None]) \<and>
   (\<forall>r w1 x w2. AliyunOSS_copy this src dest None w = (Inr r, w1) \<and>
        AliyunOSS_delete this src None w1 = (Inl x, w2) \<longrightarrow>
        AliyunOSS_move this src dest w = (Inl x, w2) \<and>
        requests w2 = requests w @ [ReqCopy dest src None, ReqDelete src None]) \<and>
   (\<forall>r w1 r' w2. AliyunOSS_copy this src dest None w = (Inr r, w1) \<and>
        AliyunOSS_delete this src None w1 = (Inr r', w2) \<longrightarrow>
        AliyunOSS_move this src dest w = (Inr \<lparr>raw = RawUndefined\<rparr>, w2) \<and>
        requests w2 = requests w @ [ReqCopy dest src None, ReqDelete src None]) \<and>
   ((\<exists>r w'. AliyunOSS_move this src dest w = (Inr r, w')) \<longleftrightarrow>
    (\<exists>r w1 r' w2. AliyunOSS_copy this src dest None w = (Inr r, w1) \<and>
        AliyunOSS_delete this src None w1 = (Inr r', w2))) \<and>
   (\<forall>x that1 w1. Aliyun_copy src dest destBucket that w = (Inl x, that1, w1) \<longrightarrow>
        Aliyun_move src dest destBucket that w = (Inl x, that1, w1)) \<and>
   (\<forall>url that1 w1 x that2 w2. Aliyun_copy src dest destBucket that w = (Inr url, that1, w1) \<and>
        Aliyun_delete src None that1 w1 = (Inl x, that2, w2) \<longrightarrow>
        Aliyun_move src dest destBucket that w = (Inl x, that2, w2) \<and>
        requests w2 = requests w @
          [ReqCopy dest (''/'' @ currentValue (u_bucket that) @ ''/'' @ src) None,
           ReqDelete src (Some Map.empty)]) \<and>
   (\<forall>url that1 w1 b that2 w2. Aliyun_copy src dest destBucket that w = (Inr url, that1, w1) \<and>
        Aliyun_delete src None that1 w1 = (Inr b, that2, w2) \<longrightarrow>
        Aliyun_move src dest destBucket that w = (Inr url, that2, w2)) \<and>
   ((\<exists>url that' w'. Aliyun_move src dest destBucket that w = (Inr url, that', w')) \<longleftrightarrow>
    (\<exists>url that1 w1 b that2 w2. Aliyun_copy src dest destBucket that w = (Inr url, that1, w1) \<and>
        Aliyun_delete src None that1 w1 = (Inr b, that2, w2)))"
proof -
  have ts_fail: "\<forall>x w1. AliyunOSS_copy this src dest None w = (Inl x, w1) \<longrightarrow>
        AliyunOSS_move this src dest w = (Inl x, w1) \<and>
        requests w1 = requests w @ [ReqCopy dest src None]"
    using AliyunOSS_copy_requests [of this src dest None w]
    by (auto simp: AliyunOSS_move_def)
  have ts_del: "\<forall>r w1 x w2. AliyunOSS_copy this src dest None w = (Inr r, w1) \<and>
        AliyunOSS_delete this src None w1 = (Inl x, w2) \<longrightarrow>
        AliyunOSS_move this src dest w = (Inl x, w2) \<and>
        requests w2 = requests w @ [ReqCopy dest src None, ReqDelete src None]"
  proof (intro allI impI, elim conjE)
    fix r w1 x w2
    assume c: "AliyunOSS_copy this src dest None w = (Inr r, w1)"
      and d: "AliyunOSS_delete this src None w1 = (Inl x, w2)"
    from c have "requests w1 = requests w @ [ReqCopy dest src None]"
      using AliyunOSS_copy_requests [of this src dest None w] by simp
    moreover from d have "requests w2 = requests w1 @ [ReqDelete src None]"
      using AliyunOSS_delete_requests [of this src None w1] by simp
    ultimately show "AliyunOSS_move this src dest w = (Inl x, w2) \<and>
        requests w2 = requests w @ [ReqCopy dest src None, ReqDelete src None]"
      using c d by (simp add: AliyunOSS_move_def)
  qed
  have ts_ok: "\<forall>r w1 r' w2. AliyunOSS_copy this src dest None w = (Inr r, w1) \<and>
        AliyunOSS_delete this src None w1 = (Inr r', w2) \<longrightarrow>
        AliyunOSS_move this src dest w = (Inr \<lparr>raw = RawUndefined\<rparr>, w2) \<and>
        requests w2 = requests w @ [ReqCopy dest src None, ReqDelete src None]"
  proof (intro allI impI, elim conjE)
    fix r w1 r' w2
    assume c: "AliyunOSS_copy this src dest None w = (Inr r, w1)"
      and d: "AliyunOSS_delete this src None w1 = (Inr r', w2)"
    from c have "requests w1 = requests w @ [ReqCopy dest src None]"
      using AliyunOSS_copy_requests [of this src dest None w] by simp
    moreover from d have "requests w2 = requests w1 @ [ReqDelete src None]"
      using AliyunOSS_delete_requests [of this src None w1] by simp
    ultimately show "AliyunOSS_move this src dest w = (Inr \<lparr>raw = RawUndefined\<rparr>, w2) \<and>
        requests w2 = requests w @ [ReqCopy dest src None, ReqDelete src None]"
      using c d by (simp add: AliyunOSS_move_def)
  qed
  have ts_iff: "(\<exists>r w'. AliyunOSS_move this src dest w = (Inr r, w')) \<longleftrightarrow>
    (\<exists>r w1 r' w2. AliyunOSS_copy this src dest None w = (Inr r, w1) \<and>
        AliyunOSS_delete this src None w1 = (Inr r', w2))"
    by (auto simp: AliyunOSS_move_def split: prod.splits sum.splits)
  have js_fail: "\<forall>x that1 w1. Aliyun_copy src dest destBucket that w = (Inl x, that1, w1) \<longrightarrow>
        Aliyun_move src dest destBucket that w = (Inl x, that1, w1)"
    by (simp add: Aliyun_move_def)
  have js_del: "\<forall>url that1 w1 x that2 w2.
        Aliyun_copy src dest destBucket that w = (Inr url, that1, w1) \<and>
        Aliyun_delete src None that1 w1 = (Inl x, that2, w2) \<longrightarrow>
        Aliyun_move src dest destBucket that w = (Inl x, that2, w2) \<and>
        requests w2 = requests w @
          [ReqCopy dest (''/'' @ currentValue (u_bucket that) @ ''/'' @ src) None,
           ReqDelete src (Some Map.empty)]"
  proof (intro allI impI, elim conjE)
    fix url that1 w1 x that2 w2
    assume c: "Aliyun_copy src dest destBucket that w = (Inr url, that1, w1)"
      and d: "Aliyun_delete src None that1 w1 = (Inl x, that2, w2)"
    from c have "requests w1 =
        requests w @ [ReqCopy dest (''/'' @ currentValue (u_bucket that) @ ''/'' @ src) None]"
      using Aliyun_copy_requests [of src dest destBucket that w] by simp
    moreover from d have "requests w2 = requests w1 @ [ReqDelete src (Some Map.empty)]"
      using Aliyun_delete_requests [of src that1 w1] by simp
    ultimately show "Aliyun_move src dest destBucket that w = (Inl x, that2, w2) \<and>
        requests w2 = requests w @
          [ReqCopy dest (''/'' @ currentValue (u_bucket that) @ ''/'' @ src) None,
           ReqDelete src (Some Map.empty)]"
      using c d by (simp add: Aliyun_move_def)
  qed
  have js_ok: "\<forall>url that1 w1 b that2 w2.
        Aliyun_copy src dest destBucket that w = (Inr url, that1, w1) \<and>
        Aliyun_delete src None that1 w1 = (Inr b, that2, w2) \<longrightarrow>
        Aliyun_move src dest destBucket that w = (Inr url, that2, w2)"
    by (simp add: Aliyun_move_def)
  have js_iff: "(\<exists>url that' w'. Aliyun_move src dest destBucket that w = (Inr url, that', w')) \<longleftrightarrow>
    (\<exists>url that1 w1 b that2 w2. Aliyun_copy src dest destBucket that w = (Inr url, that1, w1) \<and>
        Aliyun_delete src None that1 w1 = (Inr b, that2, w2))"
    by (auto simp: Aliyun_move_def split: prod.splits sum.splits)
  from ts_fail ts_del ts_ok ts_iff js_fail js_del js_ok js_iff show ?thesis
    by (intro conjI)
qed


text \<open>On the in-memory store. A write-protected source: the copy succeeds, the delete is
  refused, move raises the exception of the delete, and the copy stays at the destination
  (in both drivers). A source that can be deleted: move succeeds and the source is gone. A
  source that is absent: move raises the exception of the copy and sends no delete.\<close>

theorem move_is_copy_then_delete_witness:
  "AliyunOSS_copy test_driver ''locked.txt'' ''b.txt'' None test_store =
     (Inr \<lparr>raw = RawObject ok\<rparr>,
      \<lparr>backend = \<lparr>objects = test_objects(''b.txt'' \<mapsto> ''keep''), readonly = [''locked.txt'']\<rparr>,
       requests = [ReqCopy ''b.txt'' ''locked.txt'' None]\<rparr>) \<and>
   AliyunOSS_delete test_driver ''locked.txt'' None
      \<lparr>backend = \<lparr>objects = test_objects(''b.txt'' \<mapsto> ''keep''), readonly = [''locked.txt'']\<rparr>,
       requests = [ReqCopy ''b.txt'' ''locked.txt'' None]\<rparr> =
     (Inl (UnknownException accessDenied ''AccessDeniedError'' ''locked.txt''),
      \<lparr>backend = \<lparr>objects = test_objects(''b.txt'' \<mapsto> ''keep''), readonly = [''locked.txt'']\<rparr>,
       requests = [ReqCopy ''b.txt'' ''locked.txt'' None, ReqDelete ''locked.txt'' None]\<rparr>) \<and>
   AliyunOSS_move test_driver ''locked.txt'' ''b.txt'' test_store =
     (Inl (UnknownException accessDenied ''AccessDeniedError'' ''locked.txt''),
      \<lparr>backend = \<lparr>objects = test_objects(''b.txt'' \<mapsto> ''keep''), readonly = [''locked.txt'']\<rparr>,
       requests = [ReqCopy ''b.txt'' ''locked.txt'' None, ReqDelete ''locked.txt'' None]\<rparr>) \<and>
   AliyunOSS_move test_driver ''a.txt'' ''b.txt'' test_store =
     (Inr \<lparr>raw = RawUndefined\<rparr>,
      \<lparr>backend = \<lparr>objects = (test_objects(''b.txt'' \<mapsto> ''test-data''))(''a.txt'' := None),
                   readonly = [''locked.txt'']\<rparr>,
       requests = [ReqCopy ''b.txt'' ''a.txt'' None, ReqDelete ''a.txt'' None]\<rparr>) \<and>
   AliyunOSS_move test_driver ''nope.txt'' ''b.txt'' test_store =
     (Inl (FileNotFound noSuchKey ''nope.txt''),
      \<lparr>backend = backend test_store, requests = [ReqCopy ''b.txt'' ''nope.txt'' None]\<rparr>) \<and>
   Aliyun_move ''locked.txt'' ''b.txt'' None test_legacy test_store =
     (Inl (Thrown accessDenied), test_legacy,
      \<lparr>backend = \<lparr>objects = test_objects(''b.txt'' \<mapsto> ''keep''), readonly = [''locked.txt'']\<rparr>,
       requests = [ReqCopy ''b.txt'' ''/media/locked.txt'' None,
                   ReqDelete ''locked.txt'' (Some Map.empty)]\<rparr>)"
proof -
  let ?w1 = "\<lparr>backend = \<lparr>objects = test_objects(''b.txt'' \<mapsto> ''keep''), readonly = [''locked.txt'']\<rparr>,
       requests = [ReqCopy ''b.txt'' ''locked.txt'' None]\<rparr>"
  let ?w2 = "\<lparr>backend = \<lparr>objects = test_objects(''b.txt'' \<mapsto> ''keep''), readonly = [''locked.txt'']\<rparr>,
       requests = [ReqCopy ''b.txt'' ''locked.txt'' None, ReqDelete ''locked.txt'' None]\<rparr>"
  have c: "AliyunOSS_copy test_driver ''locked.txt'' ''b.txt'' None test_store =
      (Inr \<lparr>raw = RawObject ok\<rparr>, ?w1)"
    by (simp add: AliyunOSS_copy_def OSS_copy_def send_def test_driver_def AliyunOSS_new_def
        store_client_def test_store_def test_objects_def source_key_def configParams_def
        test_config_def AliyunOSSConfig.extend_def Options.fields_def ok_def)
  have d: "AliyunOSS_delete test_driver ''locked.txt'' None ?w1 =
      (Inl (UnknownException accessDenied ''AccessDeniedError'' ''locked.txt''), ?w2)"
    by (simp add: AliyunOSS_delete_def OSS_delete_def send_def test_driver_def AliyunOSS_new_def
        store_client_def accessDenied_def)
  have refused: "AliyunOSS_move test_driver ''locked.txt'' ''b.txt'' test_store =
      (Inl (UnknownException accessDenied ''AccessDeniedError'' ''locked.txt''), ?w2)"
    using move_is_copy_then_delete [where this = test_driver and src = "''locked.txt''"
        and dest = "''b.txt''" and w = test_store and that = test_legacy and destBucket = None,
        THEN conjunct2, THEN conjunct1, rule_format, OF conjI [OF c d]]
    by simp
  have moved: "AliyunOSS_move test_driver ''a.txt'' ''b.txt'' test_store =
       (Inr \<lparr>raw = RawUndefined\<rparr>,
        \<lparr>backend = \<lparr>objects = (test_objects(''b.txt'' \<mapsto> ''test-data''))(''a.txt'' := None),
                     readonly = [''locked.txt'']\<rparr>,
         requests = [ReqCopy ''b.txt'' ''a.txt'' None, ReqDelete ''a.txt'' None]\<rparr>)"
  proof -
    let ?w1 = "\<lparr>backend = \<lparr>objects = test_objects(''b.txt'' \<mapsto> ''test-data''), readonly = [''locked.txt'']\<rparr>,
         requests = [ReqCopy ''b.txt'' ''a.txt'' None]\<rparr>"
    let ?w2 = "\<lparr>backend = \<lparr>objects = (test_objects(''b.txt'' \<mapsto> ''test-data''))(''a.txt'' := None),
                     readonly = [''locked.txt'']\<rparr>,
         requests = [ReqCopy ''b.txt'' ''a.txt'' None, ReqDelete ''a.txt'' None]\<rparr>"
    have c: "AliyunOSS_copy test_driver ''a.txt'' ''b.txt'' None test_store =
        (Inr \<lparr>raw = RawObject ok\<rparr>, ?w1)"
      by (simp add: AliyunOSS_copy_def client_defs test_defs ok_def)
    have d: "AliyunOSS_delete test_driver ''a.txt'' None ?w1 =
        (Inr \<lparr>raw = RawObject (ok\<lparr>res_status := 204\<rparr>)\<rparr>, ?w2)"
      by (simp add: AliyunOSS_delete_def client_defs test_driver_def AliyunOSS_new_def
          store_client_def)
    show ?thesis
      using move_is_copy_then_delete [where this = test_driver and src = "''a.txt''"
          and dest = "''b.txt''" and w = test_store and that = test_legacy and destBucket = None,
          THEN conjunct2, THEN conjunct2, THEN conjunct1, rule_format, OF conjI [OF c d]]
      by simp
  qed
  have missing: "AliyunOSS_move test_driver ''nope.txt'' ''b.txt'' test_store =
       (Inl (FileNotFound noSuchKey ''nope.txt''),
        \<lparr>backend = backend test_store, requests = [ReqCopy ''b.txt'' ''nope.txt'' None]\<rparr>)"
  proof -
    have c: "AliyunOSS_copy test_driver ''nope.txt'' ''b.txt'' None test_store =
       (Inl (FileNotFound noSuchKey ''nope.txt''),
        \<lparr>backend = backend test_store, requests = [ReqCopy ''b.txt'' ''nope.txt'' None]\<rparr>)"
      by (simp add: AliyunOSS_copy_def client_defs test_defs noSuchKey_def)
    show ?thesis
      using move_is_copy_then_delete [where this = test_driver and src = "''nope.txt''"
          and dest = "''b.txt''" and w = test_store and that = test_legacy and destBucket = None,
          THEN conjunct1, rule_format, OF c]
      by simp
  qed
  have older: "Aliyun_move ''locked.txt'' ''b.txt'' None test_legacy test_store =
       (Inl (Thrown accessDenied), test_legacy,
        \<lparr>backend = \<lparr>objects = test_objects(''b.txt'' \<mapsto> ''keep''), readonly = [''locked.txt'']\<rparr>,
         requests = [ReqCopy ''b.txt'' ''/media/locked.txt'' None,
                     ReqDelete ''locked.txt'' (Some Map.empty)]\<rparr>)"
  proof -
    let ?w1 = "\<lparr>backend = \<lparr>objects = test_objects(''b.txt'' \<mapsto> ''keep''), readonly = [''locked.txt'']\<rparr>,
         requests = [ReqCopy ''b.txt'' ''/media/locked.txt'' None]\<rparr>"
    let ?w2 = "\<lparr>backend = \<lparr>objects = test_objects(''b.txt'' \<mapsto> ''keep''), readonly = [''locked.txt'']\<rparr>,
         requests = [ReqCopy ''b.txt'' ''/media/locked.txt'' None,
                     ReqDelete ''locked.txt'' (Some Map.empty)]\<rparr>"
    have c: "Aliyun_copy ''locked.txt'' ''b.txt'' None test_legacy test_store =
        (Inr ''http://media.oss-cn-hangzhou.aliyuncs.com/b.txt'', test_legacy, ?w1)"
      by (simp add: Aliyun_copy_def Aliyun_getUrl_def Resetable_pull_def client_defs test_defs)
    have d: "Aliyun_delete ''locked.txt'' None test_legacy ?w1 =
        (Inl (Thrown accessDenied), test_legacy, ?w2)"
      by (simp add: Aliyun_delete_def client_defs test_legacy_def Aliyun_new_def store_client_def)
    show ?thesis
      using move_is_copy_then_delete [where this = test_driver and src = "''locked.txt''"
          and dest = "''b.txt''" and w = test_store and that = test_legacy and destBucket = None,
          THEN conjunct2, THEN conjunct2, THEN conjunct2, THEN conjunct2, THEN conjunct2,
          THEN conjunct1, rule_format, OF conjI [OF c d]]
      by simp
  qed
  from c d refused moved missing older show ?thesis by simp
qed

section \<open>Exists on an absent key\<close>

text \<open>
  In the TypeScript driver a rejection of \<^verbatim>\<open>head\<close> with status 404 is the result
  \<^verbatim>\<open>{exists: false, raw: e}\<close>; any other rejection is raised through
  \<^verbatim>\<open>handleError\<close>. The older driver has no such case: every rejection of
  \<^verbatim>\<open>head\<close> leaves \<^verbatim>\<open>exists\<close> as it was thrown.
\<close>

lemma AliyunOSS_exists_cases:
  "(\<forall>r s'. head_impl (dollar_driver this) K opts (backend w) = (Inr r, s') \<longrightarrow>
      AliyunOSS_exists this K opts w =
        (Inr \<lparr>raw = RawObject r, exists = True\<rparr>,
         \<lparr>backend = s', requests = requests w @ [ReqHead K opts]\<rparr>)) \<and>
   (\<forall>e s'. head_impl (dollar_driver this) K opts (backend w) = (Inl e, s') \<and>
      err_status e = Some 404 \<longrightarrow>
      AliyunOSS_exists this K opts w =
        (Inr \<lparr>raw = RawError e, exists = False\<rparr>,
         \<lparr>backend = s', requests = requests w @ [ReqHead K opts]\<rparr>)) \<and>
   (\<forall>e s'. head_impl (dollar_driver this) K opts (backend w) = (Inl e, s') \<and>
      err_status e \<noteq> Some 404 \<longrightarrow>
      AliyunOSS_exists this K opts w =
        (Inl (handleError e K), \<lparr>backend = s', requests = requests w @ [ReqHead K opts]\<rparr>))"
  by (simp add: AliyunOSS_exists_def OSS_head_def send_def)

lemma Aliyun_exists_cases:
  "(\<forall>r s'. head_impl (oss this) K params (backend w) = (Inr r, s') \<longrightarrow>
      Aliyun_exists K params this w =
        (Inr True, this, \<lparr>backend = s', requests = requests w @ [ReqHead K params]\<rparr>)) \<and>
   (\<forall>e s'. head_impl (oss this) K params (backend w) = (Inl e, s') \<longrightarrow>
      Aliyun_exists K params this w =
        (Inl (Thrown e), this, \<lparr>backend = s', requests = requests w @ [ReqHead K params]\<rparr>))"
  by (simp add: Aliyun_exists_def OSS_head_def send_def)

lemma AliyunOSS_exists_absent_key:
  "AliyunOSS_exists test_driver ''some-file.jpg'' None test_store =
     (Inr \<lparr>raw = RawError noSuchKey, exists = False\<rparr>,
      \<lparr>backend = backend test_store, requests = [ReqHead ''some-file.jpg'' None]\<rparr>)"
  by (simp add: AliyunOSS_exists_def client_defs test_defs noSuchKey_def)

text \<open>
  C2. The claim is that \<^verbatim>\<open>exists(K)\<close> does not raise for a key that is absent. The
  older driver raises: for a key the store does not hold, the client rejects \<^verbatim>\<open>head\<close>
  with \<^verbatim>\<open>NoSuchKeyError\<close> (status 404), and \<^verbatim>\<open>Aliyun.exists\<close> ends with that
  error, where the TypeScript driver returns \<^verbatim>\<open>exists: false\<close> on the same input
  (\<open>AliyunOSS_exists_absent_key\<close>).
\<close>

theorem Aliyun_exists_raises_on_absent_key:
  "Aliyun_exists ''some-file.jpg'' None test_legacy test_store =
     (Inl (Thrown noSuchKey), test_legacy,
      \<lparr>backend = backend test_store, requests = [ReqHead ''some-file.jpg'' None]\<rparr>)"
  by (simp add: Aliyun_exists_def client_defs test_defs)

section \<open>The exceptions that reach the caller\<close>

text \<open>
  Every method of the TypeScript driver that catches passes the error to
  \<^verbatim>\<open>handleError\<close>, whose result is one of the two exception classes. \<^verbatim>\<open>get\<close>
  adds what \<^verbatim>\<open>toString\<close> throws. \<^verbatim>\<open>getStream\<close> catches nothing.
\<close>

lemma handleError_cases:
  "(err_name e = ''NoSuchKeyError'' \<longrightarrow> handleError e path = FileNotFound e path) \<and>
   (err_name e \<noteq> ''NoSuchKeyError'' \<longrightarrow>
      handleError e path = UnknownException e (err_name e) path)"
  by simp

lemma handleError_taxonomy: "taxonomy (handleError e path)"
  by simp

lemma wrapped_failures:
  assumes "invoke rt this op w = (Inl x, w')"
    and "\<forall>l. op \<noteq> CallGetStream l" and "\<forall>l enc. op \<noteq> CallGet l enc"
  shows "taxonomy x"
  using assms
  by (cases op)
    (auto simp: AliyunOSS_copy_def AliyunOSS_delete_def AliyunOSS_exists_def
      AliyunOSS_getBuffer_def AliyunOSS_getSignedUrl_def AliyunOSS_getStat_def
      AliyunOSS_move_def AliyunOSS_put_def Let_def
      split: prod.splits sum.splits if_splits)

lemma get_failures:
  assumes "AliyunOSS_get rt this K enc w = (Inl x, w')"
  shows "taxonomy x \<or>
    (\<exists>r w1. AliyunOSS_getBuffer this K w = (Inr r, w1) \<and>
       toString rt (content r) (case enc of None \<Rightarrow> ''utf-8'' | Some e \<Rightarrow> e) = Inl x)"
  using assms
  by (auto simp: AliyunOSS_get_def AliyunOSS_getBuffer_def Let_def
      split: prod.splits sum.splits)

text \<open>
  C3. The claim is that every failure a contract operation raises is \<^verbatim>\<open>FileNotFound\<close>
  or \<^verbatim>\<open>UnknownException\<close>. \<^verbatim>\<open>getStream\<close> on an absent key raises the client's own
  \<^verbatim>\<open>NoSuchKeyError\<close> object, which is neither.
\<close>

theorem getStream_raises_client_error:
  "invoke utf8_node test_driver (CallGetStream ''bad.txt'') test_store =
     (Inl (Thrown noSuchKey),
      \<lparr>backend = backend test_store, requests = [ReqGetStream ''bad.txt'' None]\<rparr>) \<and>
   \<not> taxonomy (Thrown noSuchKey)"
  by (simp add: AliyunOSS_getStream_def client_defs test_defs)

section \<open>The raw and content fields of the results\<close>

text \<open>
  C4, as claimed, fails at \<^verbatim>\<open>move\<close>: a successful move returns
  \<^verbatim>\<open>{ raw: undefined }\<close>.
\<close>

theorem move_raw_is_undefined:
  "invoke utf8_node test_driver (CallMove ''a.txt'' ''b.txt'') test_store =
     (Inr (Plain \<lparr>raw = RawUndefined\<rparr>),
      \<lparr>backend = \<lparr>objects = [''locked.txt'' \<mapsto> ''keep'', ''b.txt'' \<mapsto> ''test-data''],
                   readonly = [''locked.txt'']\<rparr>,
       requests = [ReqCopy ''b.txt'' ''a.txt'' None, ReqDelete ''a.txt'' None]\<rparr>) \<and>
   raw_field (Plain \<lparr>raw = RawUndefined\<rparr> :: (string option, string option) outcome) = Some RawUndefined"
  by (simp add: AliyunOSS_defs client_defs test_defs ok_def)

text \<open>
  C4, amended. For every successful operation that returns an envelope, other than
  \<^verbatim>\<open>move\<close>, the \<^verbatim>\<open>raw\<close> field is defined, and it is the value the client's call
  ended with: the object \<^verbatim>\<open>copy\<close>, \<^verbatim>\<open>delete\<close>, \<^verbatim>\<open>put\<close>, \<^verbatim>\<open>head\<close> or
  \<^verbatim>\<open>get\<close> resolved to, the string \<^verbatim>\<open>signatureUrl\<close> resolved to, and on
  \<^verbatim>\<open>exists: false\<close> the caught error object with status 404. The envelope of
  \<^verbatim>\<open>move\<close> has \<^verbatim>\<open>raw: undefined\<close>; a stream and a URL string are no envelopes. A
  result has a \<^verbatim>\<open>content\<close> field exactly when the operation is \<^verbatim>\<open>get\<close> or
  \<^verbatim>\<open>getBuffer\<close>.
\<close>

theorem envelope_raw_and_content:
  assumes "invoke rt this op w = (Inr out, w')"
  shows "((\<forall>src dest. op \<noteq> CallMove src dest) \<and> (\<forall>l. op \<noteq> CallGetStream l) \<and>
          (\<forall>l. op \<noteq> CallGetUrl l) \<longrightarrow>
            (\<exists>v. raw_field out = Some v \<and> v \<noteq> RawUndefined)) \<and>
         ((\<exists>src dest. op = CallMove src dest) \<longrightarrow> raw_field out = Some RawUndefined) \<and>
         (\<forall>l opts r. op = CallExists l opts \<and> out = Existence r \<and> \<not> exists r \<longrightarrow>
            (\<exists>e. raw r = RawError e \<and> err_status e = Some 404)) \<and>
         (has_content out \<longleftrightarrow> (\<exists>l enc. op = CallGet l enc) \<or> (\<exists>l. op = CallGetBuffer l)) \<and>
         (\<forall>src dest opts. op = CallCopy src dest opts \<longrightarrow>
            (\<exists>r. fst (copy_impl (dollar_driver this) dest src opts (backend w)) = Inr r \<and>
                 out = Plain \<lparr>raw = RawObject r\<rparr>)) \<and>
         (\<forall>l opts. op = CallDelete l opts \<longrightarrow>
            (\<exists>r. fst (delete_impl (dollar_driver this) l opts (backend w)) = Inr r \<and>
                 out = Plain \<lparr>raw = RawObject r\<rparr>)) \<and>
         (\<forall>l file opts. op = CallPut l file opts \<longrightarrow>
            (\<exists>r. fst (put_impl (dollar_driver this) l file opts (backend w)) = Inr r \<and>
                 out = Plain \<lparr>raw = RawObject r\<rparr>)) \<and>
         (\<forall>l opts. op = CallExists l opts \<longrightarrow>
            (\<exists>r. fst (head_impl (dollar_driver this) l opts (backend w)) = Inr r \<and>
                 out = Existence \<lparr>raw = RawObject r, exists = True\<rparr>) \<or>
            (\<exists>e. fst (head_impl (dollar_driver this) l opts (backend w)) = Inl e \<and>
                 err_status e = Some 404 \<and>
                 out = Existence \<lparr>raw = RawError e, exists = False\<rparr>)) \<and>
         (\<forall>l. op = CallGetBuffer l \<longrightarrow>
            (\<exists>r. fst (get_impl (dollar_driver this) l (backend w)) = Inr r \<and>
                 out = Bytes \<lparr>raw = RawGet r, content = res_content r\<rparr>)) \<and>
         (\<forall>l enc. op = CallGet l enc \<longrightarrow>
            (\<exists>r s. fst (get_impl (dollar_driver this) l (backend w)) = Inr r \<and>
                 toString rt (res_content r) (case enc of None \<Rightarrow> ''utf-8'' | Some e \<Rightarrow> e) = Inr s \<and>
                 out = Text \<lparr>raw = RawGet r, content = s\<rparr>)) \<and>
         (\<forall>l opts. op = CallGetSignedUrl l opts \<longrightarrow>
            (\<exists>p u. requests w' = requests w @ [ReqSignatureUrl l p] \<and>
                 fst (signatureUrl_impl (dollar_driver this) l p (backend w)) = Inr u \<and>
                 out = Signed \<lparr>raw = RawString u, signedUrl = u\<rparr>)) \<and>
         (\<forall>l. op = CallGetStat l \<longrightarrow>
            (\<exists>r. fst (head_impl (dollar_driver this) l None (backend w)) = Inr r \<and>
                 out = Stat \<lparr>raw = RawObject r,
                             stat_size = Number rt (res_headers r ''content-length''),
                             stat_modified = Date rt (res_headers r ''last-modified'')\<rparr>)) \<and>
         (\<forall>src dest. op = CallMove src dest \<longrightarrow> out = Plain \<lparr>raw = RawUndefined\<rparr>) \<and>
         ((\<exists>l. op = CallGetStream l) \<or> (\<exists>l. op = CallGetUrl l) \<longrightarrow> raw_field out = None)"
proof (cases op)
  case (CallCopy src dest opts)
  with assms show ?thesis
    by (auto simp: AliyunOSS_copy_def OSS_copy_def send_def split: prod.splits sum.splits)
next
  case (CallDelete l opts)
  with assms show ?thesis
    by (auto simp: AliyunOSS_delete_def OSS_delete_def send_def split: prod.splits sum.splits)
next
  case (CallExists l opts)
  with assms show ?thesis
    by (auto simp: AliyunOSS_exists_def OSS_head_def send_def
        split: prod.splits sum.splits if_splits)
next
  case (CallGet l enc)
  with assms show ?thesis
    by (auto simp: AliyunOSS_get_def AliyunOSS_getBuffer_def OSS_get_def send_def Let_def
        split: prod.splits sum.splits)
next
  case (CallGetBuffer l)
  with assms show ?thesis
    by (auto simp: AliyunOSS_getBuffer_def OSS_get_def send_def Let_def
        split: prod.splits sum.splits)
next
  case (CallGetSignedUrl l opts)
  with assms show ?thesis
    by (auto simp: AliyunOSS_getSignedUrl_def OSS_signatureUrl_def send_def Let_def
        split: prod.splits sum.splits)
next
  case (CallGetStat l)
  with assms show ?thesis
    by (auto simp: AliyunOSS_getStat_def OSS_head_def send_def split: prod.splits sum.splits)
next
  case (CallGetStream l)
  with assms show ?thesis
    by (auto simp: AliyunOSS_getStream_def split: prod.splits sum.splits)
next
  case (CallGetUrl l)
  with assms show ?thesis by auto
next
  case (CallMove src dest)
  with assms show ?thesis
    by (auto simp: AliyunOSS_move_def split: prod.splits sum.splits)
next
  case (CallPut l f opts)
  with assms show ?thesis
    by (auto simp: AliyunOSS_put_def OSS_put_def send_def split: prod.splits sum.splits)
qed

text \<open>
  On the in-memory store: \<^verbatim>\<open>exists\<close> on an absent key succeeds with the caught error
  as \<^verbatim>\<open>raw\<close> and no \<^verbatim>\<open>content\<close>.
\<close>

theorem envelope_raw_and_content_witness:
  "invoke utf8_node test_driver (CallExists ''some-file.jpg'' None) test_store =
     (Inr (Existence \<lparr>raw = RawError noSuchKey, exists = False\<rparr>),
      \<lparr>backend = backend test_store, requests = [ReqHead ''some-file.jpg'' None]\<rparr>) \<and>
   raw_field (Existence \<lparr>raw = RawError noSuchKey, exists = False\<rparr>
           :: (string option, string option) outcome) = Some (RawError noSuchKey) \<and>
   RawError noSuchKey \<noteq> RawUndefined \<and>
   err_status noSuchKey = Some 404 \<and>
   \<not> has_content (Existence \<lparr>raw = RawError noSuchKey, exists = False\<rparr>
           :: (string option, string option) outcome)"
proof -
  have run: "invoke utf8_node test_driver (CallExists ''some-file.jpg'' None) test_store =
     (Inr (Existence \<lparr>raw = RawError noSuchKey, exists = False\<rparr>),
      \<lparr>backend = backend test_store, requests = [ReqHead ''some-file.jpg'' None]\<rparr>)"
    by (simp add: AliyunOSS_exists_def client_defs test_defs noSuchKey_def)
  from envelope_raw_and_content [OF run] run show ?thesis
    by (simp add: noSuchKey_def)
qed

section \<open>The arguments of copy\<close>

text \<open>
  C5, as claimed, fails on the TypeScript driver: the source name it hands to the client is
  the key as the caller gave it, not \<^verbatim>\<open>/bucket/key\<close>.
\<close>

theorem AliyunOSS_copy_sends_bare_key:
  "requests (snd (AliyunOSS_copy test_driver ''a.txt'' ''b.txt'' None test_store)) =
     [ReqCopy ''b.txt'' ''a.txt'' None] \<and>
   ''a.txt'' \<noteq> ''/'' @ dollar_bucket test_driver @ ''/'' @ ''a.txt''"
  by (simp add: AliyunOSS_copy_def client_defs test_defs)

text \<open>
  C5, amended. \<^verbatim>\<open>AliyunOSS.copy(src, dest, options)\<close> sends one request, the client's
  \<^verbatim>\<open>copy(dest, src, options)\<close>: the destination first, the source key unchanged. The
  older \<^verbatim>\<open>Aliyun.copy(src, dest)\<close> sends \<^verbatim>\<open>copy(dest, '/' + bucket + '/' + src)\<close>,
  with the bucket the driver holds at the call.
\<close>

theorem copy_arguments:
  fixes this :: "'s AliyunOSS" and that :: "'s Aliyun"
  shows
  "requests (snd (AliyunOSS_copy this src dest opts w)) = requests w @ [ReqCopy dest src opts] \<and>
   backend (snd (AliyunOSS_copy this src dest opts w)) =
     snd (copy_impl (dollar_driver this) dest src opts (backend w)) \<and>
   requests (snd (snd (Aliyun_copy src dest destBucket that v))) =
     requests v @ [ReqCopy dest (''/'' @ currentValue (u_bucket that) @ ''/'' @ src) None] \<and>
   backend (snd (snd (Aliyun_copy src dest destBucket that v))) =
     snd (copy_impl (oss that) dest (''/'' @ currentValue (u_bucket that) @ ''/'' @ src) None
            (backend v))"
proof -
  have ts: "backend (snd (AliyunOSS_copy this src dest opts w)) =
      snd (copy_impl (dollar_driver this) dest src opts (backend w))"
    by (simp add: AliyunOSS_copy_def OSS_copy_def send_def split: prod.splits sum.splits)
  have js: "backend (snd (snd (Aliyun_copy src dest destBucket that v))) =
      snd (copy_impl (oss that) dest (''/'' @ currentValue (u_bucket that) @ ''/'' @ src) None
             (backend v))"
    by (simp add: Aliyun_copy_def Resetable_pull_def OSS_copy_def send_def Let_def
        split: prod.splits sum.splits)
  from ts js AliyunOSS_copy_requests [of this src dest opts w]
    Aliyun_copy_requests [of src dest destBucket that v]
  show ?thesis by simp
qed

section \<open>getUrl\<close>

lemma Aliyun_getUrl_explicit:
  "b \<noteq> [] \<Longrightarrow> Aliyun_getUrl K (Some b) that = (Aliyun_url that b K, that)"
  by (simp add: Aliyun_getUrl_def Aliyun_url_def)

lemma Aliyun_getUrl_pull:
  "arg = None \<or> arg = Some [] \<Longrightarrow>
   Aliyun_getUrl K arg that =
     (Aliyun_url that (currentValue (u_bucket that)) K,
      that\<lparr>u_bucket := (u_bucket that)\<lparr>currentValue := originalValue (u_bucket that)\<rparr>\<rparr>)"
  by (auto simp: Aliyun_getUrl_def Aliyun_url_def Resetable_pull_def)





section \<open>get and getBuffer\<close>

lemma get_raises_iff:
  "isl (fst (AliyunOSS_get rt this K (Some E) w)) \<longleftrightarrow>
     isl (fst (AliyunOSS_getBuffer this K w)) \<or>
     (\<exists>r w'. AliyunOSS_getBuffer this K w = (Inr r, w') \<and> isl (toString rt (content r) E))"
proof -
  obtain g w' where g: "AliyunOSS_getBuffer this K w = (g, w')"
    by (cases "AliyunOSS_getBuffer this K w")
  show ?thesis
  proof (cases g)
    case (Inl x)
    with g show ?thesis by (simp add: AliyunOSS_get_def)
  next
    case (Inr r)
    with g show ?thesis
      by (cases "toString rt (content r) E") (simp_all add: AliyunOSS_get_def)
  qed
qed

text \<open>
  C7, as claimed, fails where it says that \<^verbatim>\<open>get\<close> raises exactly when
  \<^verbatim>\<open>getBuffer\<close> raises: with an encoding name the runtime does not know,
  \<^verbatim>\<open>getBuffer\<close> returns and \<^verbatim>\<open>get\<close> raises what \<^verbatim>\<open>toString\<close> throws.
\<close>

theorem get_raises_on_unknown_encoding:
  "AliyunOSS_getBuffer test_driver ''a.txt'' test_store =
     (Inr \<lparr>raw = RawGet \<lparr>res_status = 200, res_headers = Map.empty, res_content = Buffer ''test-data''\<rparr>,
           content = Buffer ''test-data''\<rparr>,
      \<lparr>backend = backend test_store, requests = [ReqGet ''a.txt'']\<rparr>) \<and>
   AliyunOSS_get utf8_node test_driver ''a.txt'' (Some ''klingon'') test_store =
     (Inl (TypeError ''Unknown encoding: klingon''),
      \<lparr>backend = backend test_store, requests = [ReqGet ''a.txt'']\<rparr>) \<and>
   isl (fst (AliyunOSS_get utf8_node test_driver ''a.txt'' (Some ''klingon'') test_store)) \<noteq>
   isl (fst (AliyunOSS_getBuffer test_driver ''a.txt'' test_store))"
  by (simp add: AliyunOSS_get_def AliyunOSS_getBuffer_def client_defs test_defs utf8_node_def)

text \<open>
  C7, amended. \<^verbatim>\<open>get(K, E)\<close> raises what \<^verbatim>\<open>getBuffer(K)\<close> raises; when
  \<^verbatim>\<open>getBuffer\<close> returns, \<^verbatim>\<open>get\<close> returns its content decoded with \<open>E\<close> and its
  \<^verbatim>\<open>raw\<close>, or raises what the runtime's \<^verbatim>\<open>toString\<close> throws for \<open>E\<close>; with no
  encoding given the encoding is \<^verbatim>\<open>utf-8\<close>. So \<^verbatim>\<open>get\<close> raises exactly when
  \<^verbatim>\<open>getBuffer\<close> raises or \<^verbatim>\<open>toString\<close> throws; for an encoding the runtime decodes
  (its \<^verbatim>\<open>toString\<close> returns for every content), exactly when \<^verbatim>\<open>getBuffer\<close>
  raises.
\<close>

theorem get_decodes_getBuffer:
  "(\<forall>x w'. AliyunOSS_getBuffer this K w = (Inl x, w') \<longrightarrow>
      AliyunOSS_get rt this K enc w = (Inl x, w')) \<and>
   (\<forall>r w' E s. AliyunOSS_getBuffer this K w = (Inr r, w') \<and>
      toString rt (content r) E = Inr s \<longrightarrow>
      AliyunOSS_get rt this K (Some E) w = (Inr \<lparr>raw = raw r, content = s\<rparr>, w')) \<and>
   (\<forall>r w' E x. AliyunOSS_getBuffer this K w = (Inr r, w') \<and>
      toString rt (content r) E = Inl x \<longrightarrow>
      AliyunOSS_get rt this K (Some E) w = (Inl x, w')) \<and>
   AliyunOSS_get rt this K None w = AliyunOSS_get rt this K (Some ''utf-8'') w \<and>
   (\<forall>E. (\<forall>c. \<exists>s. toString rt c E = Inr s) \<longrightarrow>
      (isl (fst (AliyunOSS_get rt this K (Some E) w)) \<longleftrightarrow>
       isl (fst (AliyunOSS_getBuffer this K w)))) \<and>
   (\<forall>E. isl (fst (AliyunOSS_get rt this K (Some E) w)) \<longleftrightarrow>
      isl (fst (AliyunOSS_getBuffer this K w)) \<or>
      (\<exists>r w'. AliyunOSS_getBuffer this K w = (Inr r, w') \<and> isl (toString rt (content r) E)))"
proof -
  have raises: "\<forall>E. (\<forall>c. \<exists>s. toString rt c E = Inr s) \<longrightarrow>
      (isl (fst (AliyunOSS_get rt this K (Some E) w)) \<longleftrightarrow>
       isl (fst (AliyunOSS_getBuffer this K w)))"
  proof (intro allI impI)
    fix E
    assume total: "\<forall>c. \<exists>s. toString rt c E = Inr s"
    obtain g w' where g: "AliyunOSS_getBuffer this K w = (g, w')"
      by (cases "AliyunOSS_getBuffer this K w")
    show "isl (fst (AliyunOSS_get rt this K (Some E) w)) \<longleftrightarrow>
       isl (fst (AliyunOSS_getBuffer this K w))"
    proof (cases g)
      case (Inl x)
      with g show ?thesis by (simp add: AliyunOSS_get_def)
    next
      case (Inr r)
      from total obtain s where "toString rt (content r) E = Inr s" by blast
      with g Inr show ?thesis by (simp add: AliyunOSS_get_def)
    qed
  qed
  have always: "\<forall>E. isl (fst (AliyunOSS_get rt this K (Some E) w)) \<longleftrightarrow>
      isl (fst (AliyunOSS_getBuffer this K w)) \<or>
      (\<exists>r w'. AliyunOSS_getBuffer this K w = (Inr r, w') \<and> isl (toString rt (content r) E))"
    by (intro allI) (rule get_raises_iff)
  have cases: "(\<forall>x w'. AliyunOSS_getBuffer this K w = (Inl x, w') \<longrightarrow>
      AliyunOSS_get rt this K enc w = (Inl x, w')) \<and>
   (\<forall>r w' E s. AliyunOSS_getBuffer this K w = (Inr r, w') \<and>
      toString rt (content r) E = Inr s \<longrightarrow>
      AliyunOSS_get rt this K (Some E) w = (Inr \<lparr>raw = raw r, content = s\<rparr>, w')) \<and>
   (\<forall>r w' E x. AliyunOSS_getBuffer this K w = (Inr r, w') \<and>
      toString rt (content r) E = Inl x \<longrightarrow>
      AliyunOSS_get rt this K (Some E) w = (Inl x, w')) \<and>
   AliyunOSS_get rt this K None w = AliyunOSS_get rt this K (Some ''utf-8'') w"
    by (simp add: AliyunOSS_get_def)
  from cases raises always show ?thesis by (intro conjI) blast+
qed

text \<open>
  On the in-memory store: a key that is present, read as \<^verbatim>\<open>utf-8\<close>; a key that is
  absent; and a key that is present, read with an encoding name the runtime does not know.
\<close>

theorem get_decodes_getBuffer_witness:
  "AliyunOSS_getBuffer test_driver ''a.txt'' test_store =
     (Inr \<lparr>raw = RawGet \<lparr>res_status = 200, res_headers = Map.empty, res_content = Buffer ''test-data''\<rparr>,
           content = Buffer ''test-data''\<rparr>,
      \<lparr>backend = backend test_store, requests = [ReqGet ''a.txt'']\<rparr>) \<and>
   toString utf8_node (Buffer ''test-data'') ''utf-8'' = Inr ''test-data'' \<and>
   AliyunOSS_get utf8_node test_driver ''a.txt'' (Some ''utf-8'') test_store =
     (Inr \<lparr>raw = RawGet \<lparr>res_status = 200, res_headers = Map.empty, res_content = Buffer ''test-data''\<rparr>,
           content = ''test-data''\<rparr>,
      \<lparr>backend = backend test_store, requests = [ReqGet ''a.txt'']\<rparr>) \<and>
   (\<forall>c. \<exists>s. toString utf8_node c ''utf-8'' = Inr s) \<and>
   \<not> isl (fst (AliyunOSS_get utf8_node test_driver ''a.txt'' (Some ''utf-8'') test_store)) \<and>
   AliyunOSS_getBuffer test_driver ''bad.txt'' test_store =
     (Inl (FileNotFound noSuchKey ''bad.txt''),
      \<lparr>backend = backend test_store, requests = [ReqGet ''bad.txt'']\<rparr>) \<and>
   AliyunOSS_get utf8_node test_driver ''bad.txt'' None test_store =
     (Inl (FileNotFound noSuchKey ''bad.txt''),
      \<lparr>backend = backend test_store, requests = [ReqGet ''bad.txt'']\<rparr>) \<and>
   AliyunOSS_get utf8_node test_driver ''a.txt'' (Some ''klingon'') test_store =
     (Inl (TypeError ''Unknown encoding: klingon''),
      \<lparr>backend = backend test_store, requests = [ReqGet ''a.txt'']\<rparr>)"
proof -
  let ?r = "\<lparr>raw = RawGet \<lparr>res_status = 200, res_headers = Map.empty, res_content = Buffer ''test-data''\<rparr>,
           content = Buffer ''test-data''\<rparr>"
  let ?w = "\<lparr>backend = backend test_store, requests = [ReqGet ''a.txt'']\<rparr>"
  have b: "AliyunOSS_getBuffer test_driver ''a.txt'' test_store = (Inr ?r, ?w)"
    by (simp add: AliyunOSS_getBuffer_def client_defs test_defs)
  have d: "toString utf8_node (content ?r) ''utf-8'' = Inr ''test-data''"
    by (simp add: utf8_node_def)
  have t: "\<forall>c. \<exists>s. toString utf8_node c ''utf-8'' = Inr s"
    by (simp add: utf8_node_def split: content.splits)
  have m: "AliyunOSS_getBuffer test_driver ''bad.txt'' test_store =
     (Inl (FileNotFound noSuchKey ''bad.txt''),
      \<lparr>backend = backend test_store, requests = [ReqGet ''bad.txt'']\<rparr>)"
    by (simp add: AliyunOSS_getBuffer_def client_defs test_defs noSuchKey_def)
  note th = get_decodes_getBuffer [where rt = utf8_node and this = test_driver and w = test_store]
  have g: "AliyunOSS_get utf8_node test_driver ''a.txt'' (Some ''utf-8'') test_store =
      (Inr \<lparr>raw = raw ?r, content = ''test-data''\<rparr>, ?w)"
    using th [where K = "''a.txt''" and enc = None, THEN conjunct2, THEN conjunct1, rule_format,
        OF conjI [OF b d]] .
  have i: "isl (fst (AliyunOSS_get utf8_node test_driver ''a.txt'' (Some ''utf-8'') test_store)) \<longleftrightarrow>
       isl (fst (AliyunOSS_getBuffer test_driver ''a.txt'' test_store))"
    using th [where K = "''a.txt''" and enc = None, THEN conjunct2, THEN conjunct2,
        THEN conjunct2, THEN conjunct2, THEN conjunct1, THEN spec, THEN mp, OF t] .
  have n: "AliyunOSS_get utf8_node test_driver ''bad.txt'' None test_store =
     (Inl (FileNotFound noSuchKey ''bad.txt''),
      \<lparr>backend = backend test_store, requests = [ReqGet ''bad.txt'']\<rparr>)"
    using th [where K = "''bad.txt''" and enc = None, THEN conjunct1, rule_format, OF m] .
  have x: "toString utf8_node (content ?r) ''klingon'' = Inl (TypeError ''Unknown encoding: klingon'')"
    by (simp add: utf8_node_def)
  have u: "AliyunOSS_get utf8_node test_driver ''a.txt'' (Some ''klingon'') test_store =
     (Inl (TypeError ''Unknown encoding: klingon''), ?w)"
    using th [where K = "''a.txt''" and enc = None,
        THEN conjunct2, THEN conjunct2, THEN conjunct1, rule_format, OF conjI [OF b x]] .
  from b d t g i m n u show ?thesis by simp
qed

section \<open>getSignedUrl\<close>

text \<open>
  C8, as claimed, fails for options that carry an \<^verbatim>\<open>expires\<close> property of their own:
  \<^verbatim>\<open>Object.assign({ expires: expiry }, options)\<close> lets it overwrite the target's, so
  with \<^verbatim>\<open>{expires: 5}\<close> and no \<^verbatim>\<open>expiry\<close> the call passes 5 and not 900, and with
  \<^verbatim>\<open>{expiry: 60, expires: 5}\<close> it passes 5 and not 60.
\<close>

theorem getSignedUrl_own_expires_wins:
  "requests (snd (AliyunOSS_getSignedUrl test_driver ''a.txt'' (Some [''expires'' \<mapsto> JNumber 5])
                    test_store)) =
     [ReqSignatureUrl ''a.txt'' [''expires'' \<mapsto> JNumber 5]] \<and>
   requests (snd (AliyunOSS_getSignedUrl test_driver ''a.txt''
                    (Some [''expiry'' \<mapsto> JNumber 60, ''expires'' \<mapsto> JNumber 5]) test_store)) =
     [ReqSignatureUrl ''a.txt'' [''expiry'' \<mapsto> JNumber 60, ''expires'' \<mapsto> JNumber 5]] \<and>
   JNumber 5 \<noteq> JNumber 900 \<and> JNumber 5 \<noteq> JNumber 60"
  by (simp add: AliyunOSS_getSignedUrl_def Object_assign_def client_defs test_defs Let_def
      fun_upd_twist)

text \<open>
  C8, amended. \<^verbatim>\<open>getSignedUrl(K, options)\<close> sends one \<^verbatim>\<open>signatureUrl\<close> request for
  \<open>K\<close>. With no options, or an empty options object, its parameters are
  \<^verbatim>\<open>{expires: 900}\<close>; with \<^verbatim>\<open>{expiry: E}\<close> they are \<^verbatim>\<open>{expires: E, expiry: E}\<close>.
  For any options object: when it has no \<^verbatim>\<open>expires\<close> property of its own, the
  parameters have \<^verbatim>\<open>expires\<close> 900 if \<^verbatim>\<open>expiry\<close> is absent or undefined, and the
  caller's \<^verbatim>\<open>expiry\<close> otherwise; an \<^verbatim>\<open>expires\<close> property of its own is passed as
  it is; every other property of the options is passed unchanged.
\<close>

theorem getSignedUrl_expires:
  "requests (snd (AliyunOSS_getSignedUrl this K None w)) =
     requests w @ [ReqSignatureUrl K [''expires'' \<mapsto> JNumber 900]] \<and>
   requests (snd (AliyunOSS_getSignedUrl this K (Some Map.empty) w)) =
     requests w @ [ReqSignatureUrl K [''expires'' \<mapsto> JNumber 900]] \<and>
   requests (snd (AliyunOSS_getSignedUrl this K (Some [''expiry'' \<mapsto> JNumber E]) w)) =
     requests w @ [ReqSignatureUrl K [''expires'' \<mapsto> JNumber E, ''expiry'' \<mapsto> JNumber E]] \<and>
   (\<exists>p. requests (snd (AliyunOSS_getSignedUrl this K (Some ob) w)) =
          requests w @ [ReqSignatureUrl K p]) \<and>
   (\<forall>p. requests (snd (AliyunOSS_getSignedUrl this K (Some ob) w)) =
          requests w @ [ReqSignatureUrl K p] \<longrightarrow>
      (ob ''expires'' = None \<and> (ob ''expiry'' = None \<or> ob ''expiry'' = Some JUndefined) \<longrightarrow>
         p ''expires'' = Some (JNumber 900)) \<and>
      (\<forall>v. ob ''expires'' = None \<and> ob ''expiry'' = Some v \<and> v \<noteq> JUndefined \<longrightarrow>
         p ''expires'' = Some v) \<and>
      (\<forall>v. ob ''expires'' = Some v \<longrightarrow> p ''expires'' = Some v) \<and>
      (\<forall>k. k \<noteq> ''expires'' \<longrightarrow> p k = ob k))"
proof -
  have fixed: "requests (snd (AliyunOSS_getSignedUrl this K None w)) =
     requests w @ [ReqSignatureUrl K [''expires'' \<mapsto> JNumber 900]] \<and>
   requests (snd (AliyunOSS_getSignedUrl this K (Some Map.empty) w)) =
     requests w @ [ReqSignatureUrl K [''expires'' \<mapsto> JNumber 900]] \<and>
   requests (snd (AliyunOSS_getSignedUrl this K (Some [''expiry'' \<mapsto> JNumber E]) w)) =
     requests w @ [ReqSignatureUrl K [''expires'' \<mapsto> JNumber E, ''expiry'' \<mapsto> JNumber E]]"
    by (simp add: AliyunOSS_getSignedUrl_def Object_assign_def OSS_signatureUrl_def send_def
        Let_def split: prod.splits sum.splits)
  let ?expiry = "case ob ''expiry'' of None \<Rightarrow> JNumber 900 | Some JUndefined \<Rightarrow> JNumber 900
                 | Some v \<Rightarrow> v"
  have sent: "requests (snd (AliyunOSS_getSignedUrl this K (Some ob) w)) =
      requests w @ [ReqSignatureUrl K ([''expires'' \<mapsto> ?expiry] ++ ob)]"
    by (simp add: AliyunOSS_getSignedUrl_def Object_assign_def OSS_signatureUrl_def send_def
        Let_def split: prod.splits sum.splits)
  have props:
    "(ob ''expires'' = None \<and> (ob ''expiry'' = None \<or> ob ''expiry'' = Some JUndefined) \<longrightarrow>
         ([''expires'' \<mapsto> ?expiry] ++ ob) ''expires'' = Some (JNumber 900)) \<and>
      (\<forall>v. ob ''expires'' = None \<and> ob ''expiry'' = Some v \<and> v \<noteq> JUndefined \<longrightarrow>
         ([''expires'' \<mapsto> ?expiry] ++ ob) ''expires'' = Some v) \<and>
      (\<forall>v. ob ''expires'' = Some v \<longrightarrow> ([''expires'' \<mapsto> ?expiry] ++ ob) ''expires'' = Some v) \<and>
      (\<forall>k. k \<noteq> ''expires'' \<longrightarrow> ([''expires'' \<mapsto> ?expiry] ++ ob) k = ob k)"
    by (auto simp: map_add_def split: option.splits jsval.splits)
  from fixed sent props show ?thesis by simp
qed

text \<open>
  On the in-memory store: options with an \<^verbatim>\<open>expiry\<close> and another property, options
  without \<^verbatim>\<open>expiry\<close>, and options with an \<^verbatim>\<open>expires\<close> of their own.
\<close>

theorem getSignedUrl_expires_witness:
  "requests (snd (AliyunOSS_getSignedUrl test_driver ''a.txt''
                    (Some [''expiry'' \<mapsto> JNumber 60, ''method'' \<mapsto> JString ''PUT'']) test_store)) =
     [ReqSignatureUrl ''a.txt''
        [''expires'' \<mapsto> JNumber 60, ''expiry'' \<mapsto> JNumber 60, ''method'' \<mapsto> JString ''PUT'']] \<and>
   [''expires'' \<mapsto> JNumber 60, ''expiry'' \<mapsto> JNumber 60, ''method'' \<mapsto> JString ''PUT''] ''expires'' =
     Some (JNumber 60) \<and>
   requests (snd (AliyunOSS_getSignedUrl test_driver ''a.txt''
                    (Some [''method'' \<mapsto> JString ''PUT'']) test_store)) =
     [ReqSignatureUrl ''a.txt'' [''expires'' \<mapsto> JNumber 900, ''method'' \<mapsto> JString ''PUT'']] \<and>
   [''expires'' \<mapsto> JNumber 900, ''method'' \<mapsto> JString ''PUT''] ''expires'' = Some (JNumber 900) \<and>
   requests (snd (AliyunOSS_getSignedUrl test_driver ''a.txt''
                    (Some [''expires'' \<mapsto> JNumber 5]) test_store)) =
     [ReqSignatureUrl ''a.txt'' [''expires'' \<mapsto> JNumber 5]] \<and>
   [''expires'' \<mapsto> JNumber 5] ''expires'' = Some (JNumber 5)"
proof -
  let ?o1 = "[''expiry'' \<mapsto> JNumber 60, ''method'' \<mapsto> JString ''PUT'']"
  let ?p1 = "[''expires'' \<mapsto> JNumber 60, ''expiry'' \<mapsto> JNumber 60, ''method'' \<mapsto> JString ''PUT'']"
  let ?o2 = "[''method'' \<mapsto> JString ''PUT'']"
  let ?p2 = "[''expires'' \<mapsto> JNumber 900, ''method'' \<mapsto> JString ''PUT'']"
  let ?o3 = "[''expires'' \<mapsto> JNumber 5]"
  have r1: "requests (snd (AliyunOSS_getSignedUrl test_driver ''a.txt'' (Some ?o1) test_store)) =
      requests test_store @ [ReqSignatureUrl ''a.txt'' ?p1]"
    by (simp add: AliyunOSS_getSignedUrl_def Object_assign_def client_defs test_defs Let_def)
  have r2: "requests (snd (AliyunOSS_getSignedUrl test_driver ''a.txt'' (Some ?o2) test_store)) =
      requests test_store @ [ReqSignatureUrl ''a.txt'' ?p2]"
    by (simp add: AliyunOSS_getSignedUrl_def Object_assign_def client_defs test_defs Let_def)
  have r3: "requests (snd (AliyunOSS_getSignedUrl test_driver ''a.txt'' (Some ?o3) test_store)) =
      requests test_store @ [ReqSignatureUrl ''a.txt'' ?o3]"
    by (simp add: AliyunOSS_getSignedUrl_def Object_assign_def client_defs test_defs Let_def)
  have h1: "?o1 ''expires'' = None \<and> ?o1 ''expiry'' = Some (JNumber 60) \<and> JNumber 60 \<noteq> JUndefined"
    by simp
  have h2: "?o2 ''expires'' = None \<and> (?o2 ''expiry'' = None \<or> ?o2 ''expiry'' = Some JUndefined)"
    by simp
  have h3: "?o3 ''expires'' = Some (JNumber 5)"
    by simp
  have e1: "?p1 ''expires'' = Some (JNumber 60)"
    using getSignedUrl_expires [where this = test_driver and K = "''a.txt''" and w = test_store
        and ob = ?o1 and E = 0, THEN conjunct2, THEN conjunct2, THEN conjunct2, THEN conjunct2,
        THEN spec, THEN mp, OF r1, THEN conjunct2, THEN conjunct1, THEN spec, THEN mp, OF h1] .
  have e2: "?p2 ''expires'' = Some (JNumber 900)"
    using getSignedUrl_expires [where this = test_driver and K = "''a.txt''" and w = test_store
        and ob = ?o2 and E = 0, THEN conjunct2, THEN conjunct2, THEN conjunct2, THEN conjunct2,
        THEN spec, THEN mp, OF r2, THEN conjunct1, THEN mp, OF h2] .
  have e3: "?o3 ''expires'' = Some (JNumber 5)"
    using getSignedUrl_expires [where this = test_driver and K = "''a.txt''" and w = test_store
        and ob = ?o3 and E = 0, THEN conjunct2, THEN conjunct2, THEN conjunct2, THEN conjunct2,
        THEN spec, THEN mp, OF r3, THEN conjunct2, THEN conjunct2, THEN conjunct1, THEN spec,
        THEN mp, OF h3] .
  have rq: "requests test_store = []" by (simp add: test_store_def)
  from r1 r2 r3 e1 e2 e3 rq show ?thesis by simp
qed

section \<open>bucket\<close>

text \<open>
  C9, as claimed, fails on the older driver: \<^verbatim>\<open>bucket('other')\<close> changes the receiver
  and returns the receiver.
\<close>

theorem Aliyun_bucket_mutates_receiver:
  "snd (Aliyun_bucket ''other'' test_legacy) \<noteq> test_legacy \<and>
   fst (Aliyun_bucket ''other'' test_legacy) = snd (Aliyun_bucket ''other'' test_legacy) \<and>
   currentValue (u_bucket test_legacy) = ''media'' \<and>
   currentValue (u_bucket (snd (Aliyun_bucket ''other'' test_legacy))) = ''other''"
  by (simp add: Aliyun_bucket_def Resetable_set_def Let_def
      test_legacy_def Aliyun_new_def Resetable_new_def test_config_def)

text \<open>
  C9, amended. \<^verbatim>\<open>AliyunOSS.bucket(B)\<close> returns a new client built from the receiver's
  configuration with the bucket replaced by \<open>B\<close>, and leaves the receiver as it is. The
  older \<^verbatim>\<open>Aliyun.bucket(B)\<close> sets the current bucket of the receiver to \<open>B\<close>, keeps
  its configured bucket and its client, and returns the receiver.
\<close>

theorem bucket_handle:
  fixes this :: "'s AliyunOSS" and that :: "'s Aliyun"
  shows
  "AliyunOSS_bucket new_OSS B this = (new_OSS ((dollar_config this)\<lparr>bucket := B\<rparr>), this) \<and>
   bucket ((dollar_config this)\<lparr>bucket := B\<rparr>) = B \<and>
   Aliyun_bucket B that =
     (that\<lparr>u_bucket := \<lparr>originalValue = originalValue (u_bucket that), currentValue = B\<rparr>\<rparr>,
      that\<lparr>u_bucket := \<lparr>originalValue = originalValue (u_bucket that), currentValue = B\<rparr>\<rparr>)"
  by (simp add: AliyunOSS_bucket_def Aliyun_bucket_def Resetable_set_def Let_def)

section \<open>The bucket of the older driver is used once\<close>

lemma Aliyun_getUrl_u_bucket:
  "u_bucket (snd (Aliyun_getUrl K arg that)) =
     (if arg = None \<or> arg = Some [] then (u_bucket that)\<lparr>currentValue := originalValue (u_bucket that)\<rparr>
      else u_bucket that)"
proof (cases "arg = None \<or> arg = Some []")
  case True
  then show ?thesis by (simp add: Aliyun_getUrl_pull)
next
  case False
  then obtain b where "arg = Some b" "b \<noteq> []" by (cases arg) auto
  then show ?thesis by (simp add: Aliyun_getUrl_explicit)
qed

lemma Aliyun_copy_u_bucket:
  "u_bucket (fst (snd (Aliyun_copy src dest destBucket that w))) =
     (u_bucket that)\<lparr>currentValue := originalValue (u_bucket that)\<rparr>"
proof -
  let ?this1 = "that\<lparr>u_bucket := (u_bucket that)\<lparr>currentValue := originalValue (u_bucket that)\<rparr>\<rparr>"
  have "u_bucket (snd (Aliyun_getUrl dest destBucket ?this1)) =
      (u_bucket that)\<lparr>currentValue := originalValue (u_bucket that)\<rparr>"
    by (simp add: Aliyun_getUrl_u_bucket)
  then show ?thesis
    by (auto simp: Aliyun_copy_def Resetable_pull_def Let_def split: prod.splits sum.splits)
qed

lemma Aliyun_delete_u_bucket:
  "u_bucket (fst (snd (Aliyun_delete location params that w))) = u_bucket that"
  by (simp add: Aliyun_delete_def Let_def split: prod.splits sum.splits)

lemma Aliyun_move_u_bucket:
  "u_bucket (fst (snd (Aliyun_move src dest destBucket that w))) =
     (u_bucket that)\<lparr>currentValue := originalValue (u_bucket that)\<rparr>"
proof -
  obtain c that1 w1 where c: "Aliyun_copy src dest destBucket that w = (c, that1, w1)"
    by (cases "Aliyun_copy src dest destBucket that w")
  then have u1: "u_bucket that1 = (u_bucket that)\<lparr>currentValue := originalValue (u_bucket that)\<rparr>"
    using Aliyun_copy_u_bucket [of src dest destBucket that w] by simp
  obtain d that2 w2 where d: "Aliyun_delete src None that1 w1 = (d, that2, w2)"
    by (cases "Aliyun_delete src None that1 w1")
  then have u2: "u_bucket that2 = u_bucket that1"
    using Aliyun_delete_u_bucket [of src None that1 w1] by simp
  from c d u1 u2 show ?thesis
    by (cases c; cases d) (simp_all add: Aliyun_move_def)
qed

lemma Aliyun_call_u_bucket:
  assumes "\<not> sets_bucket c"
  shows "u_bucket (fst (Aliyun_call c that w)) =
     (if pulls_bucket c then (u_bucket that)\<lparr>currentValue := originalValue (u_bucket that)\<rparr>
      else u_bucket that)"
proof (cases c)
  case (LBucket b)
  with assms show ?thesis by simp
next
  case (LExists l p)
  then show ?thesis by (simp add: Aliyun_exists_def split: prod.splits sum.splits)
next
  case (LPut l f p)
  then show ?thesis by (simp add: Aliyun_put_def split: prod.splits sum.splits)
next
  case (LDelete l p)
  then show ?thesis by (simp add: Aliyun_delete_u_bucket)
next
  case (LGet l)
  then show ?thesis by (simp add: Aliyun_get_def split: prod.splits sum.splits content.splits)
next
  case (LGetStream l p)
  then show ?thesis by (simp add: Aliyun_getStream_def Let_def split: prod.splits sum.splits)
next
  case (LPutStream l f p)
  then show ?thesis by (simp add: Aliyun_putStream_def Let_def split: prod.splits sum.splits)
next
  case (LGetUrl l b)
  then show ?thesis by (cases b) (simp_all add: Aliyun_getUrl_u_bucket)
next
  case (LCopy s d b)
  then show ?thesis by (simp add: Aliyun_copy_u_bucket)
next
  case (LMove s d b)
  then show ?thesis by (simp add: Aliyun_move_u_bucket)
qed

lemma Aliyun_run_pending:
  "\<forall>c\<in>set pre. \<not> sets_bucket c \<and> \<not> pulls_bucket c \<Longrightarrow>
   u_bucket (fst (Aliyun_run pre that w)) = u_bucket that"
proof (induction pre arbitrary: that w)
  case Nil
  then show ?case by simp
next
  case (Cons c pre)
  obtain that' w' where step: "Aliyun_call c that w = (that', w')"
    by (cases "Aliyun_call c that w")
  from Cons.prems have "u_bucket that' = u_bucket that"
    using Aliyun_call_u_bucket [of c that w] step by simp
  moreover from Cons.prems have "u_bucket (fst (Aliyun_run pre that' w')) = u_bucket that'"
    by (intro Cons.IH) simp
  ultimately show ?case using step by simp
qed

lemma Aliyun_run_settled:
  "\<forall>c\<in>set cs. \<not> sets_bucket c \<Longrightarrow>
   currentValue (u_bucket that) = originalValue (u_bucket that) \<Longrightarrow>
   u_bucket (fst (Aliyun_run cs that w)) = u_bucket that"
proof (induction cs arbitrary: that w)
  case Nil
  then show ?case by simp
next
  case (Cons c cs)
  obtain that' w' where step: "Aliyun_call c that w = (that', w')"
    by (cases "Aliyun_call c that w")
  from Cons.prems have same: "u_bucket that' = u_bucket that"
    using Aliyun_call_u_bucket [of c that w] step by simp
  with Cons.prems have "u_bucket (fst (Aliyun_run cs that' w')) = u_bucket that'"
    by (intro Cons.IH) simp_all
  with same show ?case using step by simp
qed

lemma Aliyun_getUrl_oss: "oss (snd (Aliyun_getUrl K arg that)) = oss that"
proof (cases "arg = None \<or> arg = Some []")
  case True
  then show ?thesis by (simp add: Aliyun_getUrl_pull)
next
  case False
  then obtain b where "arg = Some b" "b \<noteq> []" by (cases arg) auto
  then show ?thesis by (simp add: Aliyun_getUrl_explicit)
qed

lemma Aliyun_copy_oss: "oss (fst (snd (Aliyun_copy src dest destBucket that w))) = oss that"
proof -
  let ?this1 = "that\<lparr>u_bucket := (u_bucket that)\<lparr>currentValue := originalValue (u_bucket that)\<rparr>\<rparr>"
  have "oss (snd (Aliyun_getUrl dest destBucket ?this1)) = oss that"
    by (simp add: Aliyun_getUrl_oss)
  then show ?thesis
    by (auto simp: Aliyun_copy_def Resetable_pull_def Let_def split: prod.splits sum.splits)
qed

lemma Aliyun_delete_oss: "oss (fst (snd (Aliyun_delete location params that w))) = oss that"
  by (simp add: Aliyun_delete_def Let_def split: prod.splits sum.splits)

lemma Aliyun_move_oss: "oss (fst (snd (Aliyun_move src dest destBucket that w))) = oss that"
proof -
  obtain c that1 w1 where c: "Aliyun_copy src dest destBucket that w = (c, that1, w1)"
    by (cases "Aliyun_copy src dest destBucket that w")
  then have u1: "oss that1 = oss that"
    using Aliyun_copy_oss [of src dest destBucket that w] by simp
  obtain d that2 w2 where d: "Aliyun_delete src None that1 w1 = (d, that2, w2)"
    by (cases "Aliyun_delete src None that1 w1")
  then have u2: "oss that2 = oss that1"
    using Aliyun_delete_oss [of src None that1 w1] by simp
  from c d u1 u2 show ?thesis
    by (cases c; cases d) (simp_all add: Aliyun_move_def)
qed

lemma Aliyun_call_oss: "oss (fst (Aliyun_call c that w)) = oss that"
proof (cases c)
  case (LBucket b)
  then show ?thesis by (simp add: Aliyun_bucket_def Let_def)
next
  case (LExists l p)
  then show ?thesis by (simp add: Aliyun_exists_def split: prod.splits sum.splits)
next
  case (LPut l f p)
  then show ?thesis by (simp add: Aliyun_put_def split: prod.splits sum.splits)
next
  case (LDelete l p)
  then show ?thesis by (simp add: Aliyun_delete_oss)
next
  case (LGet l)
  then show ?thesis by (simp add: Aliyun_get_def split: prod.splits sum.splits content.splits)
next
  case (LGetStream l p)
  then show ?thesis by (simp add: Aliyun_getStream_def Let_def split: prod.splits sum.splits)
next
  case (LPutStream l f p)
  then show ?thesis by (simp add: Aliyun_putStream_def Let_def split: prod.splits sum.splits)
next
  case (LGetUrl l b)
  then show ?thesis by (simp add: Aliyun_getUrl_oss)
next
  case (LCopy s d b)
  then show ?thesis by (simp add: Aliyun_copy_oss)
next
  case (LMove s d b)
  then show ?thesis by (simp add: Aliyun_move_oss)
qed

lemma Aliyun_run_oss: "oss (fst (Aliyun_run cs that w)) = oss that"
proof (induction cs arbitrary: that w)
  case Nil
  then show ?case by simp
next
  case (Cons c cs)
  obtain that' w' where step: "Aliyun_call c that w = (that', w')"
    by (cases "Aliyun_call c that w")
  then have "oss that' = oss that"
    using Aliyun_call_oss [of c that w] by simp
  with Cons.IH [of that' w'] step show ?case by simp
qed

lemma Aliyun_run_append:
  "Aliyun_run (xs @ ys) that w =
     (case Aliyun_run xs that w of (that', w') \<Rightarrow> Aliyun_run ys that' w')"
  by (induction xs arbitrary: that w) (simp_all split: prod.splits)

lemma Aliyun_url_oss: "oss d = oss d' \<Longrightarrow> Aliyun_url d b K = Aliyun_url d' b K"
  by (simp add: Aliyun_url_def)

lemma Aliyun_run_bucket_pending:
  assumes "\<forall>c\<in>set pre. \<not> sets_bucket c \<and> \<not> pulls_bucket c"
  shows "u_bucket (fst (Aliyun_run (LBucket B # pre) that w)) =
     \<lparr>originalValue = originalValue (u_bucket that), currentValue = B\<rparr>"
proof -
  have "u_bucket (fst (Aliyun_run pre (snd (Aliyun_bucket B that)) w)) =
      u_bucket (snd (Aliyun_bucket B that))"
    using assms by (rule Aliyun_run_pending)
  then show ?thesis
    by (simp add: Aliyun_bucket_def Resetable_set_def Let_def)
qed

lemma Aliyun_run_bucket_used:
  assumes pre: "\<forall>c\<in>set pre. \<not> sets_bucket c \<and> \<not> pulls_bucket c"
    and c: "pulls_bucket c" "\<not> sets_bucket c"
    and cs: "\<forall>x\<in>set cs. \<not> sets_bucket x"
  shows "u_bucket (fst (Aliyun_run (LBucket B # pre @ c # cs) that w)) =
     \<lparr>originalValue = originalValue (u_bucket that), currentValue = originalValue (u_bucket that)\<rparr>"
proof -
  obtain d1 w1 where r1: "Aliyun_run (LBucket B # pre) that w = (d1, w1)"
    by (cases "Aliyun_run (LBucket B # pre) that w")
  have u1: "u_bucket d1 = \<lparr>originalValue = originalValue (u_bucket that), currentValue = B\<rparr>"
    using Aliyun_run_bucket_pending [OF pre, of B that w] r1 by simp
  obtain d2 w2 where r2: "Aliyun_call c d1 w1 = (d2, w2)"
    by (cases "Aliyun_call c d1 w1")
  have u2: "u_bucket d2 =
      \<lparr>originalValue = originalValue (u_bucket that), currentValue = originalValue (u_bucket that)\<rparr>"
    using Aliyun_call_u_bucket [OF c(2), of d1 w1] c(1) r2 u1 by simp
  then have "currentValue (u_bucket d2) = originalValue (u_bucket d2)" by simp
  with cs have "u_bucket (fst (Aliyun_run cs d2 w2)) = u_bucket d2"
    by (rule Aliyun_run_settled)
  moreover have "Aliyun_run (LBucket B # pre @ c # cs) that w = Aliyun_run cs d2 w2"
    using Aliyun_run_append [of "LBucket B # pre" "c # cs" that w] r1 r2 by simp
  ultimately show ?thesis using u2 by simp
qed

lemma Aliyun_bucket_result_one_shot:
  fixes that :: "'s Aliyun"
  shows
  "u_bucket (fst (Aliyun_bucket B that)) =
     \<lparr>originalValue = originalValue (u_bucket that), currentValue = B\<rparr> \<and>
   (\<forall>pre (w :: 's world). (\<forall>c\<in>set pre. \<not> sets_bucket c \<and> \<not> pulls_bucket c) \<longrightarrow>
      u_bucket (fst (Aliyun_run pre (fst (Aliyun_bucket B that)) w)) =
        \<lparr>originalValue = originalValue (u_bucket that), currentValue = B\<rparr>) \<and>
   (\<forall>(d :: 's Aliyun) K. u_bucket d = \<lparr>originalValue = D, currentValue = B\<rparr> \<longrightarrow>
      Aliyun_getUrl K None d =
        (Aliyun_url d B K, d\<lparr>u_bucket := \<lparr>originalValue = D, currentValue = D\<rparr>\<rparr>)) \<and>
   (\<forall>(d :: 's Aliyun) src dest destBucket w.
      u_bucket d = \<lparr>originalValue = D, currentValue = B\<rparr> \<longrightarrow>
      requests (snd (snd (Aliyun_copy src dest destBucket d w))) =
        requests w @ [ReqCopy dest (''/'' @ B @ ''/'' @ src) None] \<and>
      u_bucket (fst (snd (Aliyun_copy src dest destBucket d w))) =
        \<lparr>originalValue = D, currentValue = D\<rparr>) \<and>
   (\<forall>(d :: 's Aliyun) cs w.
      u_bucket d = \<lparr>originalValue = D, currentValue = D\<rparr> \<and> (\<forall>c\<in>set cs. \<not> sets_bucket c) \<longrightarrow>
      u_bucket (fst (Aliyun_run cs d w)) = \<lparr>originalValue = D, currentValue = D\<rparr>)"
proof -
  have set: "u_bucket (fst (Aliyun_bucket B that)) =
     \<lparr>originalValue = originalValue (u_bucket that), currentValue = B\<rparr>"
    by (simp add: Aliyun_bucket_def Resetable_set_def Let_def)
  have pending: "\<forall>pre (w :: 's world). (\<forall>c\<in>set pre. \<not> sets_bucket c \<and> \<not> pulls_bucket c) \<longrightarrow>
      u_bucket (fst (Aliyun_run pre (fst (Aliyun_bucket B that)) w)) =
        \<lparr>originalValue = originalValue (u_bucket that), currentValue = B\<rparr>"
    using Aliyun_run_pending set by metis
  have url: "\<forall>(d :: 's Aliyun) K. u_bucket d = \<lparr>originalValue = D, currentValue = B\<rparr> \<longrightarrow>
      Aliyun_getUrl K None d =
        (Aliyun_url d B K, d\<lparr>u_bucket := \<lparr>originalValue = D, currentValue = D\<rparr>\<rparr>)"
    by (simp add: Aliyun_getUrl_pull)
  have copy: "\<forall>(d :: 's Aliyun) src dest destBucket w.
      u_bucket d = \<lparr>originalValue = D, currentValue = B\<rparr> \<longrightarrow>
      requests (snd (snd (Aliyun_copy src dest destBucket d w))) =
        requests w @ [ReqCopy dest (''/'' @ B @ ''/'' @ src) None] \<and>
      u_bucket (fst (snd (Aliyun_copy src dest destBucket d w))) =
        \<lparr>originalValue = D, currentValue = D\<rparr>"
    by (simp add: Aliyun_copy_requests Aliyun_copy_u_bucket)
  have later: "\<forall>(d :: 's Aliyun) cs w.
      u_bucket d = \<lparr>originalValue = D, currentValue = D\<rparr> \<and> (\<forall>c\<in>set cs. \<not> sets_bucket c) \<longrightarrow>
      u_bucket (fst (Aliyun_run cs d w)) = \<lparr>originalValue = D, currentValue = D\<rparr>"
  proof (intro allI impI, elim conjE)
    fix d :: "'s Aliyun" and cs w
    assume u: "u_bucket d = \<lparr>originalValue = D, currentValue = D\<rparr>"
      and cs: "\<forall>c\<in>set cs. \<not> sets_bucket c"
    from u have "currentValue (u_bucket d) = originalValue (u_bucket d)" by simp
    with cs have "u_bucket (fst (Aliyun_run cs d w)) = u_bucket d"
      by (rule Aliyun_run_settled)
    with u show "u_bucket (fst (Aliyun_run cs d w)) = \<lparr>originalValue = D, currentValue = D\<rparr>"
      by simp
  qed
  from set pending url copy later show ?thesis by (intro conjI)
qed

lemma Aliyun_bucket_call_one_shot:
  fixes that :: "'s Aliyun"
  shows
  "u_bucket (snd (Aliyun_bucket B that)) =
     \<lparr>originalValue = originalValue (u_bucket that), currentValue = B\<rparr> \<and>
   oss (snd (Aliyun_bucket B that)) = oss that \<and>
   (\<forall>pre (w :: 's world). (\<forall>c\<in>set pre. \<not> sets_bucket c \<and> \<not> pulls_bucket c) \<longrightarrow>
      u_bucket (fst (Aliyun_run (LBucket B # pre) that w)) =
        \<lparr>originalValue = originalValue (u_bucket that), currentValue = B\<rparr> \<and>
      (\<forall>K. fst (Aliyun_getUrl K None (fst (Aliyun_run (LBucket B # pre) that w))) =
             Aliyun_url that B K) \<and>
      (\<forall>src dest destBucket.
         requests (snd (Aliyun_run (LBucket B # pre @ [LCopy src dest destBucket]) that w)) =
           requests (snd (Aliyun_run (LBucket B # pre) that w)) @
             [ReqCopy dest (''/'' @ B @ ''/'' @ src) None])) \<and>
   (\<forall>pre c cs (w :: 's world).
      (\<forall>x\<in>set pre. \<not> sets_bucket x \<and> \<not> pulls_bucket x) \<and> pulls_bucket c \<and> \<not> sets_bucket c \<and>
      (\<forall>x\<in>set cs. \<not> sets_bucket x) \<longrightarrow>
      u_bucket (fst (Aliyun_run (LBucket B # pre @ c # cs) that w)) =
        \<lparr>originalValue = originalValue (u_bucket that),
         currentValue = originalValue (u_bucket that)\<rparr> \<and>
      (\<forall>K. fst (Aliyun_getUrl K None (fst (Aliyun_run (LBucket B # pre @ c # cs) that w))) =
             Aliyun_url that (originalValue (u_bucket that)) K) \<and>
      (\<forall>src dest destBucket.
         requests (snd (Aliyun_run (LBucket B # pre @ c # cs @ [LCopy src dest destBucket]) that w)) =
           requests (snd (Aliyun_run (LBucket B # pre @ c # cs) that w)) @
             [ReqCopy dest (''/'' @ originalValue (u_bucket that) @ ''/'' @ src) None]))"
proof -
  have copy_step: "\<And>xs src dest destBucket (w :: 's world).
      requests (snd (Aliyun_run (xs @ [LCopy src dest destBucket]) that w)) =
        requests (snd (Aliyun_run xs that w)) @
          [ReqCopy dest (''/'' @ currentValue (u_bucket (fst (Aliyun_run xs that w))) @ ''/'' @ src)
             None]"
  proof -
    fix xs src dest destBucket and w :: "'s world"
    obtain d1 w1 where r: "Aliyun_run xs that w = (d1, w1)"
      by (cases "Aliyun_run xs that w")
    then show "requests (snd (Aliyun_run (xs @ [LCopy src dest destBucket]) that w)) =
        requests (snd (Aliyun_run xs that w)) @
          [ReqCopy dest (''/'' @ currentValue (u_bucket (fst (Aliyun_run xs that w))) @ ''/'' @ src)
             None]"
      using Aliyun_copy_requests [of src dest destBucket d1 w1]
      by (cases "snd (Aliyun_copy src dest destBucket d1 w1)") (simp add: Aliyun_run_append)
  qed
  have url_step: "\<And>xs K (w :: 's world).
      fst (Aliyun_getUrl K None (fst (Aliyun_run xs that w))) =
        Aliyun_url that (currentValue (u_bucket (fst (Aliyun_run xs that w)))) K"
  proof -
    fix xs K and w :: "'s world"
    have "Aliyun_url (fst (Aliyun_run xs that w))
            (currentValue (u_bucket (fst (Aliyun_run xs that w)))) K =
          Aliyun_url that (currentValue (u_bucket (fst (Aliyun_run xs that w)))) K"
      by (rule Aliyun_url_oss) (rule Aliyun_run_oss)
    then show "fst (Aliyun_getUrl K None (fst (Aliyun_run xs that w))) =
        Aliyun_url that (currentValue (u_bucket (fst (Aliyun_run xs that w)))) K"
      by (simp add: Aliyun_getUrl_pull)
  qed
  have set: "u_bucket (snd (Aliyun_bucket B that)) =
     \<lparr>originalValue = originalValue (u_bucket that), currentValue = B\<rparr> \<and>
     oss (snd (Aliyun_bucket B that)) = oss that"
    by (simp add: Aliyun_bucket_def Resetable_set_def Let_def)
  have pending: "\<forall>pre (w :: 's world). (\<forall>c\<in>set pre. \<not> sets_bucket c \<and> \<not> pulls_bucket c) \<longrightarrow>
      u_bucket (fst (Aliyun_run (LBucket B # pre) that w)) =
        \<lparr>originalValue = originalValue (u_bucket that), currentValue = B\<rparr> \<and>
      (\<forall>K. fst (Aliyun_getUrl K None (fst (Aliyun_run (LBucket B # pre) that w))) =
             Aliyun_url that B K) \<and>
      (\<forall>src dest destBucket.
         requests (snd (Aliyun_run (LBucket B # pre @ [LCopy src dest destBucket]) that w)) =
           requests (snd (Aliyun_run (LBucket B # pre) that w)) @
             [ReqCopy dest (''/'' @ B @ ''/'' @ src) None])"
  proof (intro allI impI)
    fix pre and w :: "'s world"
    assume pre: "\<forall>c\<in>set pre. \<not> sets_bucket c \<and> \<not> pulls_bucket c"
    have u: "u_bucket (fst (Aliyun_run (LBucket B # pre) that w)) =
        \<lparr>originalValue = originalValue (u_bucket that), currentValue = B\<rparr>"
      using pre by (rule Aliyun_run_bucket_pending)
    show "u_bucket (fst (Aliyun_run (LBucket B # pre) that w)) =
        \<lparr>originalValue = originalValue (u_bucket that), currentValue = B\<rparr> \<and>
      (\<forall>K. fst (Aliyun_getUrl K None (fst (Aliyun_run (LBucket B # pre) that w))) =
             Aliyun_url that B K) \<and>
      (\<forall>src dest destBucket.
         requests (snd (Aliyun_run (LBucket B # pre @ [LCopy src dest destBucket]) that w)) =
           requests (snd (Aliyun_run (LBucket B # pre) that w)) @
             [ReqCopy dest (''/'' @ B @ ''/'' @ src) None])"
      using u url_step [of _ "LBucket B # pre" w]
        copy_step [of "LBucket B # pre" _ _ _ w]
      by simp
  qed
  have used: "\<forall>pre c cs (w :: 's world).
      (\<forall>x\<in>set pre. \<not> sets_bucket x \<and> \<not> pulls_bucket x) \<and> pulls_bucket c \<and> \<not> sets_bucket c \<and>
      (\<forall>x\<in>set cs. \<not> sets_bucket x) \<longrightarrow>
      u_bucket (fst (Aliyun_run (LBucket B # pre @ c # cs) that w)) =
        \<lparr>originalValue = originalValue (u_bucket that),
         currentValue = originalValue (u_bucket that)\<rparr> \<and>
      (\<forall>K. fst (Aliyun_getUrl K None (fst (Aliyun_run (LBucket B # pre @ c # cs) that w))) =
             Aliyun_url that (originalValue (u_bucket that)) K) \<and>
      (\<forall>src dest destBucket.
         requests (snd (Aliyun_run (LBucket B # pre @ c # cs @ [LCopy src dest destBucket]) that w)) =
           requests (snd (Aliyun_run (LBucket B # pre @ c # cs) that w)) @
             [ReqCopy dest (''/'' @ originalValue (u_bucket that) @ ''/'' @ src) None])"
  proof (intro allI impI, elim conjE)
    fix pre c cs and w :: "'s world"
    assume pre: "\<forall>x\<in>set pre. \<not> sets_bucket x \<and> \<not> pulls_bucket x"
      and c: "pulls_bucket c" "\<not> sets_bucket c"
      and cs: "\<forall>x\<in>set cs. \<not> sets_bucket x"
    have u: "u_bucket (fst (Aliyun_run (LBucket B # pre @ c # cs) that w)) =
        \<lparr>originalValue = originalValue (u_bucket that),
         currentValue = originalValue (u_bucket that)\<rparr>"
      using pre c cs by (rule Aliyun_run_bucket_used)
    show "u_bucket (fst (Aliyun_run (LBucket B # pre @ c # cs) that w)) =
        \<lparr>originalValue = originalValue (u_bucket that),
         currentValue = originalValue (u_bucket that)\<rparr> \<and>
      (\<forall>K. fst (Aliyun_getUrl K None (fst (Aliyun_run (LBucket B # pre @ c # cs) that w))) =
             Aliyun_url that (originalValue (u_bucket that)) K) \<and>
      (\<forall>src dest destBucket.
         requests (snd (Aliyun_run (LBucket B # pre @ c # cs @ [LCopy src dest destBucket]) that w)) =
           requests (snd (Aliyun_run (LBucket B # pre @ c # cs) that w)) @
             [ReqCopy dest (''/'' @ originalValue (u_bucket that) @ ''/'' @ src) None])"
      using u url_step [of _ "LBucket B # pre @ c # cs" w]
        copy_step [of "LBucket B # pre @ c # cs" _ _ _ w]
      by simp
  qed
  from set pending used show ?thesis by (intro conjI) simp_all
qed

text \<open>
  C10. \<^verbatim>\<open>bucket(B)\<close> changes the driver: after the call the receiver holds \<open>B\<close>
  beside its configured bucket \<open>D\<close>, and the value returned is that same driver. Calls
  that neither set nor pull the bucket leave it so. The next \<^verbatim>\<open>getUrl\<close> without a
  bucket argument builds its URL with \<open>B\<close>, the next \<^verbatim>\<open>copy\<close> reads its source from
  \<open>/B/src\<close>, and either puts the configured bucket back. From then on, whatever calls
  follow (other than \<^verbatim>\<open>bucket\<close>), the driver holds \<open>D\<close>, \<^verbatim>\<open>getUrl\<close> builds its
  URL with \<open>D\<close> and \<^verbatim>\<open>copy\<close> reads from \<open>/D/src\<close>. The first four parts speak of
  the receiver, through the calls run on it from \<^verbatim>\<open>bucket(B)\<close> on; the last five
  speak of the driver that \<^verbatim>\<open>bucket(B)\<close> returns.
\<close>

theorem bucket_override_one_shot:
  fixes that :: "'s Aliyun"
  shows
  "(u_bucket (snd (Aliyun_bucket B that)) =
     \<lparr>originalValue = originalValue (u_bucket that), currentValue = B\<rparr> \<and>
   oss (snd (Aliyun_bucket B that)) = oss that \<and>
   (\<forall>pre (w :: 's world). (\<forall>c\<in>set pre. \<not> sets_bucket c \<and> \<not> pulls_bucket c) \<longrightarrow>
      u_bucket (fst (Aliyun_run (LBucket B # pre) that w)) =
        \<lparr>originalValue = originalValue (u_bucket that), currentValue = B\<rparr> \<and>
      (\<forall>K. fst (Aliyun_getUrl K None (fst (Aliyun_run (LBucket B # pre) that w))) =
             Aliyun_url that B K) \<and>
      (\<forall>src dest destBucket.
         requests (snd (Aliyun_run (LBucket B # pre @ [LCopy src dest destBucket]) that w)) =
           requests (snd (Aliyun_run (LBucket B # pre) that w)) @
             [ReqCopy dest (''/'' @ B @ ''/'' @ src) None])) \<and>
   (\<forall>pre c cs (w :: 's world).
      (\<forall>x\<in>set pre. \<not> sets_bucket x \<and> \<not> pulls_bucket x) \<and> pulls_bucket c \<and> \<not> sets_bucket c \<and>
      (\<forall>x\<in>set cs. \<not> sets_bucket x) \<longrightarrow>
      u_bucket (fst (Aliyun_run (LBucket B # pre @ c # cs) that w)) =
        \<lparr>originalValue = originalValue (u_bucket that),
         currentValue = originalValue (u_bucket that)\<rparr> \<and>
      (\<forall>K. fst (Aliyun_getUrl K None (fst (Aliyun_run (LBucket B # pre @ c # cs) that w))) =
             Aliyun_url that (originalValue (u_bucket that)) K) \<and>
      (\<forall>src dest destBucket.
         requests (snd (Aliyun_run (LBucket B # pre @ c # cs @ [LCopy src dest destBucket]) that w)) =
           requests (snd (Aliyun_run (LBucket B # pre @ c # cs) that w)) @
             [ReqCopy dest (''/'' @ originalValue (u_bucket that) @ ''/'' @ src) None]))) \<and>
   (u_bucket (fst (Aliyun_bucket B that)) =
     \<lparr>originalValue = originalValue (u_bucket that), currentValue = B\<rparr> \<and>
   (\<forall>pre (w :: 's world). (\<forall>c\<in>set pre. \<not> sets_bucket c \<and> \<not> pulls_bucket c) \<longrightarrow>
      u_bucket (fst (Aliyun_run pre (fst (Aliyun_bucket B that)) w)) =
        \<lparr>originalValue = originalValue (u_bucket that), currentValue = B\<rparr>) \<and>
   (\<forall>(d :: 's Aliyun) K. u_bucket d = \<lparr>originalValue = D, currentValue = B\<rparr> \<longrightarrow>
      Aliyun_getUrl K None d =
        (Aliyun_url d B K, d\<lparr>u_bucket := \<lparr>originalValue = D, currentValue = D\<rparr>\<rparr>)) \<and>
   (\<forall>(d :: 's Aliyun) src dest destBucket w.
      u_bucket d = \<lparr>originalValue = D, currentValue = B\<rparr> \<longrightarrow>
      requests (snd (snd (Aliyun_copy src dest destBucket d w))) =
        requests w @ [ReqCopy dest (''/'' @ B @ ''/'' @ src) None] \<and>
      u_bucket (fst (snd (Aliyun_copy src dest destBucket d w))) =
        \<lparr>originalValue = D, currentValue = D\<rparr>) \<and>
   (\<forall>(d :: 's Aliyun) cs w.
      u_bucket d = \<lparr>originalValue = D, currentValue = D\<rparr> \<and> (\<forall>c\<in>set cs. \<not> sets_bucket c) \<longrightarrow>
      u_bucket (fst (Aliyun_run cs d w)) = \<lparr>originalValue = D, currentValue = D\<rparr>))"
  using Aliyun_bucket_call_one_shot [of B that] Aliyun_bucket_result_one_shot [of B that D]
  by (rule conjI)

text \<open>
  On the in-memory store, with configured bucket \<^verbatim>\<open>media\<close> and override
  \<^verbatim>\<open>other\<close>.
\<close>

theorem bucket_override_one_shot_witness:
  "u_bucket (snd (Aliyun_bucket ''other'' test_legacy)) =
     \<lparr>originalValue = ''media'', currentValue = ''other''\<rparr> \<and>
   u_bucket (fst (Aliyun_run [LBucket ''other'', LExists ''a.txt'' None, LDelete ''old.txt'' None,
                              LGetUrl ''a.txt'' (Some ''cdn'')] test_legacy test_store)) =
     \<lparr>originalValue = ''media'', currentValue = ''other''\<rparr> \<and>
   fst (Aliyun_getUrl ''a.txt'' None
          (fst (Aliyun_run [LBucket ''other'', LExists ''a.txt'' None, LDelete ''old.txt'' None,
                            LGetUrl ''a.txt'' (Some ''cdn'')] test_legacy test_store))) =
     ''http://other.oss-cn-hangzhou.aliyuncs.com/a.txt'' \<and>
   requests (snd (Aliyun_run [LBucket ''other'', LExists ''a.txt'' None, LDelete ''old.txt'' None,
                              LGetUrl ''a.txt'' (Some ''cdn''), LCopy ''a.txt'' ''b.txt'' None]
                    test_legacy test_store)) =
     requests (snd (Aliyun_run [LBucket ''other'', LExists ''a.txt'' None, LDelete ''old.txt'' None,
                                LGetUrl ''a.txt'' (Some ''cdn'')] test_legacy test_store)) @
       [ReqCopy ''b.txt'' ''/other/a.txt'' None] \<and>
   u_bucket (fst (Aliyun_run [LBucket ''other'', LExists ''a.txt'' None, LDelete ''old.txt'' None,
                              LGetUrl ''a.txt'' (Some ''cdn''), LGetUrl ''a.txt'' None,
                              LExists ''a.txt'' None, LCopy ''a.txt'' ''b.txt'' None]
                    test_legacy test_store)) =
     \<lparr>originalValue = ''media'', currentValue = ''media''\<rparr> \<and>
   fst (Aliyun_getUrl ''a.txt'' None
          (fst (Aliyun_run [LBucket ''other'', LExists ''a.txt'' None, LDelete ''old.txt'' None,
                            LGetUrl ''a.txt'' (Some ''cdn''), LGetUrl ''a.txt'' None,
                            LExists ''a.txt'' None, LCopy ''a.txt'' ''b.txt'' None]
                  test_legacy test_store))) =
     ''http://media.oss-cn-hangzhou.aliyuncs.com/a.txt'' \<and>
   u_bucket (fst (Aliyun_bucket ''other'' test_legacy)) =
     \<lparr>originalValue = ''media'', currentValue = ''other''\<rparr> \<and>
   u_bucket (fst (Aliyun_run [LExists ''a.txt'' None, LDelete ''old.txt'' None,
                              LGetUrl ''a.txt'' (Some ''cdn'')]
                    (fst (Aliyun_bucket ''other'' test_legacy)) test_store)) =
     \<lparr>originalValue = ''media'', currentValue = ''other''\<rparr> \<and>
   Aliyun_getUrl ''a.txt'' None (fst (Aliyun_bucket ''other'' test_legacy)) =
     (''http://other.oss-cn-hangzhou.aliyuncs.com/a.txt'', test_legacy) \<and>
   requests (snd (snd (Aliyun_copy ''a.txt'' ''b.txt'' None
                         (fst (Aliyun_bucket ''other'' test_legacy)) test_store))) =
     [ReqCopy ''b.txt'' ''/other/a.txt'' None] \<and>
   u_bucket (fst (snd (Aliyun_copy ''a.txt'' ''b.txt'' None
                         (fst (Aliyun_bucket ''other'' test_legacy)) test_store))) =
     \<lparr>originalValue = ''media'', currentValue = ''media''\<rparr> \<and>
   u_bucket test_legacy = \<lparr>originalValue = ''media'', currentValue = ''media''\<rparr> \<and>
   u_bucket (fst (Aliyun_run [LGetUrl ''a.txt'' None, LCopy ''a.txt'' ''b.txt'' None,
                              LMove ''b.txt'' ''c.txt'' None] test_legacy test_store)) =
     \<lparr>originalValue = ''media'', currentValue = ''media''\<rparr>"
proof -
  let ?pending = "fst (Aliyun_bucket ''other'' test_legacy)"
  let ?pre = "[LExists ''a.txt'' None, LDelete ''old.txt'' None, LGetUrl ''a.txt'' (Some ''cdn'')]"
  let ?c = "LGetUrl ''a.txt'' None"
  let ?after = "[LExists ''a.txt'' None, LCopy ''a.txt'' ''b.txt'' None]"
  let ?cs = "[LGetUrl ''a.txt'' None, LCopy ''a.txt'' ''b.txt'' None, LMove ''b.txt'' ''c.txt'' None]"
  note th = bucket_override_one_shot [where that = test_legacy and B = "''other''" and D = "''media''"]
  note call = th [THEN conjunct1]
  note result = th [THEN conjunct2]
  have orig: "originalValue (u_bucket test_legacy) = ''media''"
    by (simp add: test_legacy_def Aliyun_new_def Resetable_new_def test_config_def)
  have settled: "u_bucket test_legacy = \<lparr>originalValue = ''media'', currentValue = ''media''\<rparr>"
    by (simp add: test_legacy_def Aliyun_new_def Resetable_new_def test_config_def)
  have pre: "\<forall>c\<in>set ?pre. \<not> sets_bucket c \<and> \<not> pulls_bucket c"
    by simp
  have cs: "\<forall>c\<in>set ?cs. \<not> sets_bucket c"
    by simp
  have used: "(\<forall>x\<in>set ?pre. \<not> sets_bucket x \<and> \<not> pulls_bucket x) \<and> pulls_bucket ?c \<and>
      \<not> sets_bucket ?c \<and> (\<forall>x\<in>set ?after. \<not> sets_bucket x)"
    by simp
  have url_other: "Aliyun_url test_legacy ''other'' ''a.txt'' =
      ''http://other.oss-cn-hangzhou.aliyuncs.com/a.txt''"
    by (simp add: Aliyun_url_def test_legacy_def Aliyun_new_def store_client_def test_config_def
        configParams_def AliyunOSSConfig.extend_def Options.fields_def)
  have url_media: "Aliyun_url test_legacy ''media'' ''a.txt'' =
      ''http://media.oss-cn-hangzhou.aliyuncs.com/a.txt''"
    by (simp add: Aliyun_url_def test_legacy_def Aliyun_new_def store_client_def test_config_def
        configParams_def AliyunOSSConfig.extend_def Options.fields_def)
  have n1: "u_bucket (snd (Aliyun_bucket ''other'' test_legacy)) =
      \<lparr>originalValue = ''media'', currentValue = ''other''\<rparr>"
    using call [THEN conjunct1] orig by simp
  note n3 = call [THEN conjunct2, THEN conjunct2, THEN conjunct1, THEN spec [where x = "?pre"],
      THEN spec [where x = test_store], THEN mp, OF pre]
  have n3a: "u_bucket (fst (Aliyun_run (LBucket ''other'' # ?pre) test_legacy test_store)) =
      \<lparr>originalValue = ''media'', currentValue = ''other''\<rparr>"
    using n3 [THEN conjunct1] orig by simp
  have n3b: "fst (Aliyun_getUrl ''a.txt'' None
        (fst (Aliyun_run (LBucket ''other'' # ?pre) test_legacy test_store))) =
      ''http://other.oss-cn-hangzhou.aliyuncs.com/a.txt''"
    using n3 [THEN conjunct2, THEN conjunct1, THEN spec, of "''a.txt''"] url_other by simp
  have n3c: "requests (snd (Aliyun_run (LBucket ''other'' # ?pre @ [LCopy ''a.txt'' ''b.txt'' None])
        test_legacy test_store)) =
      requests (snd (Aliyun_run (LBucket ''other'' # ?pre) test_legacy test_store)) @
        [ReqCopy ''b.txt'' (''/'' @ ''other'' @ ''/'' @ ''a.txt'') None]"
    using n3 [THEN conjunct2, THEN conjunct2, THEN spec, THEN spec, THEN spec,
        of "''a.txt''" "''b.txt''" None] .
  note n4 = call [THEN conjunct2, THEN conjunct2, THEN conjunct2, THEN spec [where x = "?pre"],
      THEN spec [where x = "?c"], THEN spec [where x = "?after"],
      THEN spec [where x = test_store], THEN mp, OF used]
  have n4a: "u_bucket (fst (Aliyun_run (LBucket ''other'' # ?pre @ ?c # ?after)
        test_legacy test_store)) =
      \<lparr>originalValue = ''media'', currentValue = ''media''\<rparr>"
    using n4 [THEN conjunct1] orig by simp
  have n4b: "fst (Aliyun_getUrl ''a.txt'' None
        (fst (Aliyun_run (LBucket ''other'' # ?pre @ ?c # ?after) test_legacy test_store))) =
      ''http://media.oss-cn-hangzhou.aliyuncs.com/a.txt''"
    using n4 [THEN conjunct2, THEN conjunct1, THEN spec, of "''a.txt''"] url_media orig by simp
  have p0: "u_bucket ?pending = \<lparr>originalValue = ''media'', currentValue = ''other''\<rparr>"
    using result [THEN conjunct1] orig by simp
  have p1: "u_bucket (fst (Aliyun_run ?pre ?pending test_store)) =
      \<lparr>originalValue = ''media'', currentValue = ''other''\<rparr>"
    using result [THEN conjunct2, THEN conjunct1, THEN spec, THEN spec, THEN mp, OF pre] orig
    by simp
  have p2: "Aliyun_getUrl ''a.txt'' None ?pending =
      (Aliyun_url ?pending ''other'' ''a.txt'',
       ?pending\<lparr>u_bucket := \<lparr>originalValue = ''media'', currentValue = ''media''\<rparr>\<rparr>)"
    using result [THEN conjunct2, THEN conjunct2, THEN conjunct1, THEN spec, THEN spec, THEN mp,
        OF p0] .
  have restored: "?pending\<lparr>u_bucket := \<lparr>originalValue = ''media'', currentValue = ''media''\<rparr>\<rparr> =
      test_legacy"
    by (simp add: Aliyun_bucket_def Let_def test_legacy_def Aliyun_new_def Resetable_new_def
        test_config_def)
  have url: "Aliyun_url ?pending ''other'' ''a.txt'' =
      ''http://other.oss-cn-hangzhou.aliyuncs.com/a.txt''"
    by (simp add: Aliyun_url_def Aliyun_bucket_def Let_def test_legacy_def Aliyun_new_def
        store_client_def test_config_def configParams_def AliyunOSSConfig.extend_def
        Options.fields_def)
  have p3: "requests (snd (snd (Aliyun_copy ''a.txt'' ''b.txt'' None ?pending test_store))) =
        requests test_store @ [ReqCopy ''b.txt'' (''/'' @ ''other'' @ ''/'' @ ''a.txt'') None] \<and>
      u_bucket (fst (snd (Aliyun_copy ''a.txt'' ''b.txt'' None ?pending test_store))) =
        \<lparr>originalValue = ''media'', currentValue = ''media''\<rparr>"
    using result [THEN conjunct2, THEN conjunct2, THEN conjunct2, THEN conjunct1,
        THEN spec, THEN spec, THEN spec, THEN spec, THEN spec, THEN mp, OF p0] .
  have p4: "u_bucket (fst (Aliyun_run ?cs test_legacy test_store)) =
      \<lparr>originalValue = ''media'', currentValue = ''media''\<rparr>"
    using result [THEN conjunct2, THEN conjunct2, THEN conjunct2, THEN conjunct2,
        THEN spec, THEN spec, THEN spec, THEN mp, OF conjI [OF settled cs]] .
  have rq: "requests test_store = []"
    by (simp add: test_store_def)
  from n1 n3a n3b n3c n4a n4b p1 p0 p2 restored url p3 rq settled p4 show ?thesis
    by simp
qed

end
